theory Spec2Isabelle
  imports Complex_Main "HOL-Library.Multiset" "HOL-Library.AList" "HOL-Library.Log_Nat"
begin

section \<open>Three Cards: the game logic of App.jsx\<close>

text \<open>
  The source is a React component file. Its game logic is five plain functions
  (\<open>createDeck\<close>, \<open>shuffle\<close>, \<open>getRankValue\<close>, \<open>evaluateHand\<close>, \<open>compareHands\<close>) and
  the handlers \<open>handleDeal\<close> and \<open>handleReshuffle\<close> of the component \<open>App\<close>, which
  update the component's state directly and through \<open>setTimeout\<close> callbacks.

  JavaScript values are embedded as follows. The numbers that occur are small integers
  (card values, hand ranks, scores, counts), modelled as \<open>int\<close>. \<open>undefined\<close> and
  \<open>null\<close> are \<open>None\<close> of an option type. A string is a \<open>string\<close>. An array is a
  list; a read beyond its end is \<open>undefined\<close>. An object used as a dictionary is the
  list of its own properties in insertion order.
\<close>

subsection \<open>Cards and the deck\<close>

text \<open>A card is the object \<open>{ rank, suit, value }\<close> pushed by \<open>createDeck\<close>.\<close>

record card =
  card_rank :: string
  card_suit :: string
  card_value :: int

definition RANKS :: "string list" where
  "RANKS = [''2'', ''3'', ''4'', ''5'', ''6''] @ [''7'', ''8'', ''9'', ''10'', ''J'', ''Q'', ''K'', ''A'']"

definition SUITS :: "string list" where
  "SUITS = [''H'', ''D'', ''C'', ''S'']"

text \<open>
  \<open>createDeck\<close>: the outer loop runs over \<open>SUITS\<close>, the inner one over
  \<open>RANKS.entries()\<close>, the pairs of an index and a rank; each step pushes one card whose
  \<open>value\<close> is \<open>index + 2\<close>.
\<close>

definition createDeck :: "card list" where
  "createDeck =
     concat (map (\<lambda>suit.
        map (\<lambda>(index, rank). \<lparr>card_rank = rank, card_suit = suit, card_value = int index + 2\<rparr>)
            (enumerate 0 RANKS))
        SUITS)"

subsection \<open>shuffle\<close>

text \<open>
  The destructuring assignment \<open>[array[i], array[j]] = [array[j], array[i]]\<close> reads both
  elements first and then writes position \<open>i\<close> and position \<open>j\<close>, in this order.
\<close>

definition swap :: "nat \<Rightarrow> nat \<Rightarrow> 'a list \<Rightarrow> 'a list" where
  "swap i j array = array[i := array ! j, j := array ! i]"

text \<open>
  \<open>Math.random()\<close> returns a double, and \<open>Math.random() * (i + 1)\<close> is the product
  as IEEE 754 rounds it. A finite double that is not negative is \<open>m * 2 ^ e\<close> for
  integers \<open>m\<close> and \<open>e\<close> with \<open>0 \<le> m < 2 ^ 53\<close> and \<open>- 1074 \<le> e \<le> 971\<close>; the record
  holds such a pair, which need not be normalised.
\<close>

record double =
  mantissa :: int
  exponent :: int

definition is_double :: "double \<Rightarrow> bool" where
  "is_double x =
     (0 \<le> mantissa x \<and> mantissa x < 2 ^ 53 \<and> - 1074 \<le> exponent x \<and> exponent x \<le> 971)"

text \<open>The double \<open>x\<close> is less than 1.\<close>

definition below_one :: "double \<Rightarrow> bool" where
  "below_one x =
     (mantissa x = 0 \<or> (exponent x < 0 \<and> mantissa x < 2 ^ nat (- exponent x)))"

text \<open>
  The double nearest to \<open>m * 2 ^ e\<close>, for \<open>0 \<le> m\<close> and \<open>- 1074 \<le> e\<close> and below the
  range where doubles overflow: a mantissa of at most 53 bits is kept as it is; of a
  longer one the \<open>k\<close> bits beyond 53 are cut off and the rest is rounded to the nearest
  integer, a tie to the even one. (A mantissa rounded up to \<open>2 ^ 53\<close> is left as it is;
  the value is the same double.)
\<close>

definition round_double :: "int \<Rightarrow> int \<Rightarrow> double" where
  "round_double m e =
     (if bitlen m \<le> 53 then \<lparr>mantissa = m, exponent = e\<rparr>
      else
        let k = nat (bitlen m - 53);
            q = m div 2 ^ k;
            r = m mod 2 ^ k;
            half = 2 ^ (k - 1)
        in \<lparr>mantissa = (if r > half \<or> (r = half \<and> odd q) then q + 1 else q),
            exponent = e + int k\<rparr>)"

text \<open>
  The product of a double and an integer below \<open>2 ^ 53\<close>, which is a double as it
  stands: the exact product is rounded once. \<open>Math.floor\<close> of a double is an integer.
\<close>

definition times_integer :: "double \<Rightarrow> nat \<Rightarrow> double" where
  "times_integer x n = round_double (mantissa x * int n) (exponent x)"

definition floor_double :: "double \<Rightarrow> int" where
  "floor_double x =
     (if 0 \<le> exponent x then mantissa x * 2 ^ nat (exponent x)
      else mantissa x div 2 ^ nat (- exponent x))"

text \<open>
  The loop \<open>for (let i = array.length - 1; i > 0; i--)\<close>. The random source is the
  sequence \<open>rnd\<close> of the doubles that the calls of \<open>Math.random()\<close> return, \<open>k\<close>
  being the number of calls made so far, and \<open>j\<close> is
  \<open>Math.floor(Math.random() * (i + 1))\<close>. \<open>Math.random()\<close> returns a double that is
  not negative and less than 1. For a value outside this contract the index \<open>j\<close> would
  leave the array, where JavaScript writes \<open>undefined\<close> or extends the array; that
  case is not modelled, and every statement below about \<open>shuffle\<close> assumes the
  contract. An array has fewer than \<open>2 ^ 32\<close> elements.
\<close>

fun shuffle_loop :: "(nat \<Rightarrow> double) \<Rightarrow> nat \<Rightarrow> nat \<Rightarrow> 'a list \<Rightarrow> 'a list" where
  "shuffle_loop rnd k 0 array = array"
| "shuffle_loop rnd k (Suc n) array =
     (let i = Suc n;
          j = nat (floor_double (times_integer (rnd k) (i + 1)))
      in shuffle_loop rnd (k + 1) n (swap i j array))"

definition shuffle :: "(nat \<Rightarrow> double) \<Rightarrow> nat \<Rightarrow> 'a list \<Rightarrow> 'a list" where
  "shuffle rnd k array = shuffle_loop rnd k (length array - 1) array"

text \<open>The contract of \<open>Math.random\<close>.\<close>

definition random_ok :: "(nat \<Rightarrow> double) \<Rightarrow> bool" where
  "random_ok rnd = (\<forall>k. is_double (rnd k) \<and> below_one (rnd k))"

subsection \<open>getRankValue\<close>

definition rankMap :: "(string \<times> int) list" where
  "rankMap = [(''2'', 2), (''3'', 3), (''4'', 4), (''5'', 5), (''6'', 6), (''7'', 7), (''8'', 8),
              (''9'', 9), (''10'', 10), (''J'', 11), (''Q'', 12), (''K'', 13), (''A'', 14)]"

text \<open>
  \<open>x || 0\<close> for a number or \<open>undefined\<close>: \<open>undefined\<close> and the number \<open>0\<close> are falsy.
\<close>

definition or_zero :: "int option \<Rightarrow> int" where
  "or_zero x = (case x of None \<Rightarrow> 0 | Some v \<Rightarrow> if v = 0 then 0 else v)"

text \<open>
  A lookup in an object literal also finds the properties inherited from
  \<open>Object.prototype\<close> (\<open>constructor\<close>, \<open>toString\<close> and the like). No rank of a
  card is such a name; the lookups below are those of the own properties.
\<close>

definition getRankValue :: "string \<Rightarrow> int" where
  "getRankValue rank = or_zero (map_of rankMap rank)"

subsection \<open>evaluateHand\<close>

text \<open>
  The result object \<open>{ type, rank, primaryValue, kicker }\<close>; \<open>primaryValue\<close> and
  \<open>kicker\<close> are absent in some results, and an element of \<open>kicker\<close> is what
  \<open>Array.prototype.find\<close> returned, a number or \<open>undefined\<close>.
\<close>

record hand_result =
  hr_type :: string
  hr_rank :: int
  primaryValue :: "int option"
  kicker :: "int option list option"

text \<open>
  \<open>ranks.reduce(...)\<close> builds the object \<open>rankCounts\<close>: a new key is added behind the
  existing ones, an existing key keeps its place.
\<close>

definition count_rank :: "(string \<times> int) list \<Rightarrow> string \<Rightarrow> (string \<times> int) list" where
  "count_rank acc rank = AList.update rank (or_zero (map_of acc rank) + 1) acc"

definition rankCounts :: "string list \<Rightarrow> (string \<times> int) list" where
  "rankCounts ranks = foldl count_rank [] ranks"

text \<open>
  \<open>Object.entries\<close> lists the own properties whose key is an array index (the canonical
  decimal numeral of an integer from \<open>0\<close> to \<open>2^32 - 2\<close>) first, in ascending numeric
  order, and then the other string keys in insertion order. Of the ranks, \<open>2\<close> to
  \<open>10\<close> are array indices and \<open>J\<close>, \<open>Q\<close>, \<open>K\<close>, \<open>A\<close> are not.
\<close>

definition is_digit :: "char \<Rightarrow> bool" where
  "is_digit c = (48 \<le> (of_char c :: nat) \<and> (of_char c :: nat) \<le> 57)"

definition numeric_value :: "string \<Rightarrow> int" where
  "numeric_value s = foldl (\<lambda>acc c. 10 * acc + (of_char c - 48)) 0 s"

definition is_array_index :: "string \<Rightarrow> bool" where
  "is_array_index s =
     (s \<noteq> [] \<and> list_all is_digit s \<and> (s = ''0'' \<or> hd s \<noteq> CHR ''0'') \<and>
      numeric_value s < 4294967295)"

definition object_entries :: "(string \<times> 'v) list \<Rightarrow> (string \<times> 'v) list" where
  "object_entries obj =
     sort_key (\<lambda>(key, v). numeric_value key) (filter (\<lambda>(key, v). is_array_index key) obj) @
     filter (\<lambda>(key, v). \<not> is_array_index key) obj"

text \<open>
  \<open>.sort((a, b) => b - a)\<close> is a stable sort into descending order;
  \<open>pairs[0]\<close> of an empty array is \<open>undefined\<close>, which the source reads only after
  \<open>pairs.length > 0\<close>.
\<close>

definition sort_descending :: "int list \<Rightarrow> int list" where
  "sort_descending values = sort_key (\<lambda>v. - v) values"

definition evaluateHand :: "card list \<Rightarrow> hand_result" where
  "evaluateHand hand =
     (let sortedValues = sort_descending (map (\<lambda>c. getRankValue (card_rank c)) hand);
          ranks = map card_rank hand;
          pairs = filter (\<lambda>(rank, cnt). cnt \<ge> 2) (object_entries (rankCounts ranks))
      in case pairs of
           [] \<Rightarrow> \<lparr>hr_type = ''High Card'', hr_rank = 1, primaryValue = None,
                  kicker = Some (map Some sortedValues)\<rparr>
         | (pairRank, cnt) # _ \<Rightarrow>
             let pairValue = getRankValue pairRank
             in if cnt = 3
                then \<lparr>hr_type = ''Three of a Kind'', hr_rank = 3, primaryValue = Some pairValue,
                      kicker = None\<rparr>
                else \<lparr>hr_type = ''Pair'', hr_rank = 2, primaryValue = Some pairValue,
                      kicker = Some [List.find (\<lambda>v. v \<noteq> pairValue) sortedValues]\<rparr>)"

subsection \<open>compareHands\<close>

text \<open>
  \<open>a > b\<close> on values that are numbers or \<open>undefined\<close>: a comparison with
  \<open>undefined\<close> is false. \<open>index\<close> is the array read \<open>xs[i]\<close>.
\<close>

fun greater :: "int option \<Rightarrow> int option \<Rightarrow> bool" where
  "greater (Some a) (Some b) = (a > b)"
| "greater _ _ = False"

definition index :: "'a option list \<Rightarrow> nat \<Rightarrow> 'a option" where
  "index xs i = (if i < length xs then xs ! i else None)"

text \<open>
  The loop over the kickers, from index \<open>i\<close> on: \<open>Some\<close> of the value it returns, or
  \<open>None\<close> when it runs to the end of \<open>hand1.kicker\<close>.
\<close>

function kicker_loop :: "nat \<Rightarrow> int option list \<Rightarrow> int option list \<Rightarrow> int option" where
  "kicker_loop i kicker1 kicker2 =
     (if i < length kicker1
      then if greater (index kicker1 i) (index kicker2 i) then Some 1
           else if greater (index kicker2 i) (index kicker1 i) then Some 2
           else kicker_loop (i + 1) kicker1 kicker2
      else None)"
  by pat_completeness auto
termination
  by (relation "measure (\<lambda>(i, kicker1, kicker2). length kicker1 - i)") auto

declare kicker_loop.simps [simp del]

text \<open>The result is the number \<open>1\<close>, \<open>2\<close> or \<open>0\<close> (a tie).\<close>

definition compareHands :: "hand_result \<Rightarrow> hand_result \<Rightarrow> int" where
  "compareHands hand1 hand2 =
     (if hr_rank hand1 > hr_rank hand2 then 1
      else if hr_rank hand2 > hr_rank hand1 then 2
      else
        case (if primaryValue hand1 \<noteq> None \<and> primaryValue hand2 \<noteq> None
              then if greater (primaryValue hand1) (primaryValue hand2) then Some 1
                   else if greater (primaryValue hand2) (primaryValue hand1) then Some 2
                   else None
              else None) of
          Some w \<Rightarrow> w
        | None \<Rightarrow>
            (case (kicker hand1, kicker hand2) of
               (Some kicker1, Some kicker2) \<Rightarrow>
                 (case kicker_loop 0 kicker1 kicker2 of Some w \<Rightarrow> w | None \<Rightarrow> 0)
             | _ \<Rightarrow> 0))"

subsection \<open>The component App: state, timers and handlers\<close>

text \<open>
  The state of the component is the twelve \<open>useState\<close> cells. \<open>gameState\<close> is one of
  the strings \<open>pre-deal\<close>, \<open>hands-out\<close>, \<open>showdown\<close>, \<open>reshuffling\<close>;
  \<open>winningPlayer\<close> is \<open>null\<close> or what \<open>compareHands\<close> returned.

  A handler runs to its end and leaves callbacks behind with \<open>setTimeout\<close>. A callback
  is kept together with the variables of its closure: \<open>handleDeal\<close> is rebuilt by
  \<open>useCallback\<close> whenever \<open>currentDeck\<close>, \<open>player1Score\<close> or \<open>player2Score\<close>
  change, so the handler that runs sees their current values, and its callbacks keep
  these values, while \<open>setPlayer1Score(s => s + 1)\<close> and \<open>setShuffleCount(c => c + 1)\<close>
  update the cell as it is when they run.
\<close>

datatype callback =
    DealCards "card list" int int
  | RevealHands
  | ShowWinner "card list" "card list" "card list" int int
  | ShowModal string
  | FinishReshuffle

text \<open>
  \<open>DealCards deckToUse player1Score player2Score\<close> is the callback set at 300 ms by
  \<open>handleDeal\<close>, \<open>RevealHands\<close> the one at 50 ms inside it,
  \<open>ShowWinner p1Hand p2Hand remainingDeck player1Score player2Score\<close> the one at
  1200 ms, \<open>ShowModal finalResultMessage\<close> the one at 1500 ms inside that, and
  \<open>FinishReshuffle\<close> the one at 500 ms of \<open>handleReshuffle\<close>.

  Besides the cells, the record holds what the browser holds: the pending timers, each
  with the time at which it is due, in the order in which they will fire; the clock;
  and the number of calls of \<open>Math.random\<close> made so far.
\<close>

record app =
  player1Score :: int
  player2Score :: int
  player1Hand :: "card list"
  player2Hand :: "card list"
  gameState :: string
  resultMessage :: string
  winnerMessage :: string
  winningPlayer :: "int option"
  currentDeck :: "card list"
  shuffleCount :: int
  isHandsRevealed :: bool
  showReshuffleModal :: bool
  timers :: "(nat \<times> callback) list"
  clock :: nat
  random_calls :: nat

definition cardsNeeded :: nat where
  "cardsNeeded = 6"

text \<open>
  A timer fires after the timers that are due earlier, and after those due at the same
  time that were set before it.
\<close>

fun insert_timer :: "nat \<times> callback \<Rightarrow> (nat \<times> callback) list \<Rightarrow> (nat \<times> callback) list" where
  "insert_timer t [] = [t]"
| "insert_timer t (u # us) = (if fst u \<le> fst t then u # insert_timer t us else t # u # us)"

definition setTimeout :: "callback \<Rightarrow> nat \<Rightarrow> app \<Rightarrow> app" where
  "setTimeout cb delay w = w\<lparr>timers := insert_timer (clock w + delay, cb) (timers w)\<rparr>"

text \<open>
  \<open>array.slice(start, end)\<close> and \<open>array.slice(start)\<close> for indices that are not
  negative: the elements from \<open>start\<close> up to but without \<open>end\<close>, as far as the array
  has them.
\<close>

definition slice :: "nat \<Rightarrow> nat \<Rightarrow> 'a list \<Rightarrow> 'a list" where
  "slice start end array = take (end - start) (drop start array)"

definition slice_from :: "nat \<Rightarrow> 'a list \<Rightarrow> 'a list" where
  "slice_from start array = drop start array"

text \<open>The decimal numeral of an integer, as a template literal prints it.\<close>

fun digits :: "nat \<Rightarrow> string" where
  "digits n = (if n < 10 then [char_of (48 + n)] else digits (n div 10) @ [char_of (48 + n mod 10)])"

declare digits.simps [simp del]

definition number_string :: "int \<Rightarrow> string" where
  "number_string i = (if i < 0 then ''-'' @ digits (nat (- i)) else digits (nat i))"

text \<open>
  The message of the finished game. The source computes it twice with the same three
  template literals, in \<open>handleDeal\<close> from the scores and in the callback at 1200 ms
  from \<open>p1FinalScore\<close> and \<open>p2FinalScore\<close>.
\<close>

definition finalResultMessage :: "int \<Rightarrow> int \<Rightarrow> string" where
  "finalResultMessage p1 p2 =
     (if p1 > p2
      then ''Player 1 Wins the Game! Final Score: '' @ number_string p1 @ '' - '' @ number_string p2
      else if p2 > p1
      then ''Player 2 Wins the Game! Final Score: '' @ number_string p2 @ '' - '' @ number_string p1
      else ''It'' @ [CHR 0x27] @ ''s a Tie Game! Final Score: '' @ number_string p1 @ '' - '' @
           number_string p2)"

definition handleDeal :: "app \<Rightarrow> app" where
  "handleDeal w =
     (if length (currentDeck w) < cardsNeeded
      then w\<lparr>gameState := ''showdown'',
             resultMessage := finalResultMessage (player1Score w) (player2Score w),
             showReshuffleModal := True\<rparr>
      else
        let deckToUse = currentDeck w
        in setTimeout (DealCards deckToUse (player1Score w) (player2Score w)) 300
             (w\<lparr>gameState := ''hands-out'',
                winningPlayer := None,
                isHandsRevealed := False,
                winnerMessage := ''...Dealing cards...'',
                resultMessage := '''',
                player1Hand := [],
                player2Hand := []\<rparr>))"

definition handleReshuffle :: "app \<Rightarrow> app" where
  "handleReshuffle w =
     setTimeout FinishReshuffle 500
       (w\<lparr>gameState := ''reshuffling'',
          showReshuffleModal := False,
          winnerMessage := ''Deck is empty. RESHUFFLING...'',
          resultMessage := '''',
          player1Score := 0,
          player2Score := 0,
          player1Hand := [],
          player2Hand := [],
          winningPlayer := None,
          isHandsRevealed := False\<rparr>)"

text \<open>The body of each callback; \<open>rnd\<close> is the sequence of the values of \<open>Math.random\<close>.\<close>

fun fire :: "(nat \<Rightarrow> double) \<Rightarrow> callback \<Rightarrow> app \<Rightarrow> app" where
  "fire rnd (DealCards deckToUse player1Score_c player2Score_c) w =
     (let p1Hand = slice 0 3 deckToUse;
          p2Hand = slice 3 6 deckToUse;
          remainingDeck = slice_from 6 deckToUse
      in setTimeout (ShowWinner p1Hand p2Hand remainingDeck player1Score_c player2Score_c) 1200
           (setTimeout RevealHands 50
              (w\<lparr>currentDeck := remainingDeck, player1Hand := p1Hand, player2Hand := p2Hand\<rparr>)))"
| "fire rnd RevealHands w = w\<lparr>isHandsRevealed := True\<rparr>"
| "fire rnd (ShowWinner p1Hand p2Hand remainingDeck player1Score_c player2Score_c) w =
     (let result1 = evaluateHand p1Hand;
          result2 = evaluateHand p2Hand;
          winnerId = compareHands result1 result2;
          w1 = w\<lparr>gameState := ''showdown'', winningPlayer := Some winnerId\<rparr>;
          w2 = (if winnerId = 1
                then w1\<lparr>player1Score := player1Score w1 + 1,
                        winnerMessage := ''Player 1 Wins! ('' @ hr_type result1 @ '' beats '' @
                                         hr_type result2 @ '')''\<rparr>
                else if winnerId = 2
                then w1\<lparr>player2Score := player2Score w1 + 1,
                        winnerMessage := ''Player 2 Wins! ('' @ hr_type result2 @ '' beats '' @
                                         hr_type result1 @ '')''\<rparr>
                else w1\<lparr>winnerMessage := ''It'' @ [CHR 0x27] @ ''s a Tie! No score change.''\<rparr>)
      in if length remainingDeck < cardsNeeded
         then let p1FinalScore = player1Score_c + (if winnerId = 1 then 1 else 0);
                  p2FinalScore = player2Score_c + (if winnerId = 2 then 1 else 0)
              in setTimeout (ShowModal (finalResultMessage p1FinalScore p2FinalScore)) 1500 w2
         else w2)"
| "fire rnd (ShowModal finalResultMessage_c) w =
     w\<lparr>resultMessage := finalResultMessage_c, showReshuffleModal := True\<rparr>"
| "fire rnd FinishReshuffle w =
     (let newDeck = shuffle rnd (random_calls w) createDeck
      in w\<lparr>currentDeck := newDeck,
            shuffleCount := shuffleCount w + 1,
            winnerMessage := ''Shuffle complete. Ready to draw.'',
            gameState := ''pre-deal'',
            random_calls := random_calls w + (length createDeck - 1)\<rparr>)"

declare fire.simps [simp del]

text \<open>The browser fires the first pending timer, at the time at which it is due.\<close>

definition step :: "(nat \<Rightarrow> double) \<Rightarrow> app \<Rightarrow> app" where
  "step rnd w =
     (case timers w of
        [] \<Rightarrow> w
      | (due, cb) # rest \<Rightarrow> fire rnd cb (w\<lparr>timers := rest, clock := max (clock w) due\<rparr>))"

text \<open>
  Every callback sets fewer timers than it is worth by the following count, so the
  pending timers run out.
\<close>

fun weight :: "callback \<Rightarrow> nat" where
  "weight (DealCards deckToUse p1 p2) = 4"
| "weight (ShowWinner p1Hand p2Hand remainingDeck p1 p2) = 2"
| "weight _ = 1"

definition pending_weight :: "app \<Rightarrow> nat" where
  "pending_weight w = sum_list (map (\<lambda>(due, cb). weight cb) (timers w))"

function run_timers :: "(nat \<Rightarrow> double) \<Rightarrow> app \<Rightarrow> app" where
  "run_timers rnd w = (if timers w = [] then w else run_timers rnd (step rnd w))"
  by pat_completeness auto
termination
proof (relation "measure (\<lambda>(rnd, w). pending_weight w)")
  show "wf (measure (\<lambda>(rnd :: nat \<Rightarrow> double, w). pending_weight w))"
    by simp
next
  fix rnd :: "nat \<Rightarrow> double" and w :: app
  assume "timers w \<noteq> []"
  then obtain due cb rest where t: "timers w = (due, cb) # rest"
    by (cases "timers w") auto
  have ins: "sum_list (map (\<lambda>(due, cb). weight cb) (insert_timer u us)) =
      weight (snd u) + sum_list (map (\<lambda>(due, cb). weight cb) us)" for u us
    by (induction us) (auto split: prod.splits)
  have "pending_weight (fire rnd cb v) < weight cb + pending_weight v" for v
    by (cases cb) (simp_all add: fire.simps pending_weight_def setTimeout_def ins Let_def)
  from this [of "w\<lparr>timers := rest, clock := max (clock w) due\<rparr>"]
  have "pending_weight (step rnd w) < pending_weight w"
    by (simp add: step_def t pending_weight_def)
  then show "((rnd, step rnd w), (rnd, w)) \<in> measure (\<lambda>(rnd, w). pending_weight w)"
    by simp
qed

declare run_timers.simps [simp del]

text \<open>
  A command, together with everything that follows from it: the handler and then its
  timers, with no other event in between.
\<close>

definition deal_command :: "(nat \<Rightarrow> double) \<Rightarrow> app \<Rightarrow> app" where
  "deal_command rnd w = run_timers rnd (handleDeal w)"

definition reshuffle_command :: "(nat \<Rightarrow> double) \<Rightarrow> app \<Rightarrow> app" where
  "reshuffle_command rnd w = run_timers rnd (handleReshuffle w)"

text \<open>
  What \<open>App\<close> renders. The button DRAW NEW CARDS is there unless the modal flag is
  set, and it is disabled by its \<open>disabled\<close> attribute; a click on a disabled button
  calls no handler. The button RESHUFFLE DECK is part of \<open>ResultModal\<close>, which is
  shown when the flag is set and the state is \<open>showdown\<close>.
\<close>

definition deal_button_disabled :: "app \<Rightarrow> bool" where
  "deal_button_disabled w =
     ((gameState w \<noteq> ''showdown'' \<and> gameState w \<noteq> ''pre-deal'') \<or>
      length (currentDeck w) < cardsNeeded)"

definition click_deal :: "app \<Rightarrow> app" where
  "click_deal w =
     (if \<not> showReshuffleModal w \<and> \<not> deal_button_disabled w then handleDeal w else w)"

definition click_reshuffle :: "app \<Rightarrow> app" where
  "click_reshuffle w =
     (if showReshuffleModal w \<and> gameState w = ''showdown'' then handleReshuffle w else w)"

text \<open>The initial values of the cells, and the effect that runs when the component mounts.\<close>

definition initial :: app where
  "initial =
     \<lparr>player1Score = 0, player2Score = 0, player1Hand = [], player2Hand = [],
      gameState = ''pre-deal'', resultMessage = '''',
      winnerMessage = ''Press '' @ [CHR 0x22] @ ''DRAW NEW CARDS'' @ [CHR 0x22] @
                      '' to start the game!'',
      winningPlayer = None, currentDeck = [], shuffleCount = 0, isHandsRevealed = False,
      showReshuffleModal = False, timers = [], clock = 0, random_calls = 0\<rparr>"

definition mount :: "(nat \<Rightarrow> double) \<Rightarrow> app \<Rightarrow> app" where
  "mount rnd w =
     (if length (currentDeck w) = 0 \<and> shuffleCount w = 0
      then let newDeck = shuffle rnd (random_calls w) createDeck
           in w\<lparr>currentDeck := newDeck,
                 shuffleCount := 1,
                 gameState := ''pre-deal'',
                 random_calls := random_calls w + (length createDeck - 1)\<rparr>
      else w)"

subsection \<open>Notions of the specification\<close>

text \<open>
  A hand is three cards, each with one of the thirteen ranks. A rank occurs in a hand as
  often as the hand has cards of that rank; the rank values of a hand are those of its
  cards, in their order.
\<close>

definition valid_hand :: "card list \<Rightarrow> bool" where
  "valid_hand hand = (length hand = 3 \<and> (\<forall>c\<in>set hand. card_rank c \<in> set RANKS))"

definition occurrences :: "card list \<Rightarrow> string \<Rightarrow> nat" where
  "occurrences hand r = length (filter (\<lambda>c. card_rank c = r) hand)"

definition rank_values :: "card list \<Rightarrow> int list" where
  "rank_values hand = map (\<lambda>c. getRankValue (card_rank c)) hand"

text \<open>
  The ordering of two results in the words of the specification: the kickers of a
  result are none when the field is absent, and \<open>a\<close> is decisively ahead of \<open>b\<close>
  when its rank is higher, or the ranks are equal and both primary values exist with
  that of \<open>a\<close> greater, or ranks and primary values tie and the kickers of \<open>a\<close> are
  greater at the first index at which the two sequences differ.
\<close>

definition kickers_of :: "hand_result \<Rightarrow> int option list" where
  "kickers_of h = (case kicker h of None \<Rightarrow> [] | Some ks \<Rightarrow> ks)"

definition kickers_greater :: "int option list \<Rightarrow> int option list \<Rightarrow> bool" where
  "kickers_greater ka kb =
     (\<exists>i\<in>{0..<min (length ka) (length kb)}.
        (\<forall>j\<in>{0..<i}. ka ! j = kb ! j) \<and>
        (case (ka ! i, kb ! i) of (Some x, Some y) \<Rightarrow> x > y | _ \<Rightarrow> False))"

definition decisive_for :: "hand_result \<Rightarrow> hand_result \<Rightarrow> bool" where
  "decisive_for a b =
     (hr_rank a > hr_rank b \<or>
      (hr_rank a = hr_rank b \<and>
       (case (primaryValue a, primaryValue b) of (Some pa, Some pb) \<Rightarrow> pa > pb | _ \<Rightarrow> False)) \<or>
      (hr_rank a = hr_rank b \<and> primaryValue a = primaryValue b \<and>
       kickers_greater (kickers_of a) (kickers_of b)))"

subsection \<open>Auxiliary notions for the rounds\<close>

text \<open>
  For a state \<open>w\<close> in which a deal starts: the state that the callback at 1200 ms
  finds, and the value that \<open>compareHands\<close> returns for the two hands dealt from the
  deck of \<open>w\<close>.
\<close>

definition dealt :: "app \<Rightarrow> app" where
  "dealt w =
     w\<lparr>gameState := ''hands-out'', winningPlayer := None, isHandsRevealed := True,
       winnerMessage := ''...Dealing cards...'', resultMessage := '''',
       player1Hand := take 3 (currentDeck w),
       player2Hand := take 3 (drop 3 (currentDeck w)),
       currentDeck := drop 6 (currentDeck w),
       timers := [], clock := clock w + 1500\<rparr>"

definition round_winner :: "app \<Rightarrow> int" where
  "round_winner w =
     compareHands (evaluateHand (take 3 (currentDeck w)))
                  (evaluateHand (take 3 (drop 3 (currentDeck w))))"

text \<open>
  A random source that returns the same value at every call, the greatest double below
  1; with it \<open>shuffle\<close> leaves the fresh deck in its order.
\<close>

definition fixed_random :: "nat \<Rightarrow> double" where
  "fixed_random k = \<lparr>mantissa = 2 ^ 53 - 1, exponent = - 53\<rparr>"

text \<open>
  The value that \<open>compareHands\<close> returns for the two hands dealt from a deck, and
  the points that the player with number \<open>p\<close> wins in the first \<open>N\<close> rounds dealt
  from it.
\<close>

definition winner_of :: "card list \<Rightarrow> int" where
  "winner_of deck =
     compareHands (evaluateHand (take 3 deck)) (evaluateHand (take 3 (drop 3 deck)))"

fun points :: "int \<Rightarrow> card list \<Rightarrow> nat \<Rightarrow> int" where
  "points p deck 0 = 0"
| "points p deck (Suc N) = (if winner_of deck = p then 1 else 0) + points p (drop 6 deck) N"

text \<open>
  The state after the mount and eight deals with this random source: the deck is used
  up and the modal is shown.
\<close>

definition end_of_deck :: app where
  "end_of_deck = (deal_command fixed_random ^^ 8) (mount fixed_random initial)"

subsection \<open>The second variant of the game logic\<close>

text \<open>
  The second source file defines the same five functions once more. They are translated
  here from that file, each under its name with the suffix \<open>_000\<close>, on the same
  embedding of JavaScript values.
\<close>

definition RANKS_000 :: "string list" where
  "RANKS_000 = [''2'', ''3'', ''4'', ''5'', ''6''] @ [''7'', ''8'', ''9'', ''10'', ''J'', ''Q'', ''K'', ''A'']"

definition SUITS_000 :: "string list" where
  "SUITS_000 = [''H'', ''D'', ''C'', ''S'']"

definition createDeck_000 :: "card list" where
  "createDeck_000 =
     concat (map (\<lambda>suit.
        map (\<lambda>(index, rank). \<lparr>card_rank = rank, card_suit = suit, card_value = int index + 2\<rparr>)
            (enumerate 0 RANKS_000))
        SUITS_000)"

fun shuffle_loop_000 :: "(nat \<Rightarrow> double) \<Rightarrow> nat \<Rightarrow> nat \<Rightarrow> 'a list \<Rightarrow> 'a list" where
  "shuffle_loop_000 rnd k 0 array = array"
| "shuffle_loop_000 rnd k (Suc n) array =
     (let i = Suc n;
          j = nat (floor_double (times_integer (rnd k) (i + 1)))
      in shuffle_loop_000 rnd (k + 1) n (swap i j array))"

definition shuffle_000 :: "(nat \<Rightarrow> double) \<Rightarrow> nat \<Rightarrow> 'a list \<Rightarrow> 'a list" where
  "shuffle_000 rnd k array = shuffle_loop_000 rnd k (length array - 1) array"

definition rankMap_000 :: "(string \<times> int) list" where
  "rankMap_000 = [(''2'', 2), (''3'', 3), (''4'', 4), (''5'', 5), (''6'', 6), (''7'', 7), (''8'', 8),
                  (''9'', 9), (''10'', 10), (''J'', 11), (''Q'', 12), (''K'', 13), (''A'', 14)]"

definition getRankValue_000 :: "string \<Rightarrow> int" where
  "getRankValue_000 rank = or_zero (map_of rankMap_000 rank)"

definition count_rank_000 :: "(string \<times> int) list \<Rightarrow> string \<Rightarrow> (string \<times> int) list" where
  "count_rank_000 acc rank = AList.update rank (or_zero (map_of acc rank) + 1) acc"

definition rankCounts_000 :: "string list \<Rightarrow> (string \<times> int) list" where
  "rankCounts_000 ranks = foldl count_rank_000 [] ranks"

definition evaluateHand_000 :: "card list \<Rightarrow> hand_result" where
  "evaluateHand_000 hand =
     (let sortedValues = sort_descending (map (\<lambda>c. getRankValue_000 (card_rank c)) hand);
          ranks = map card_rank hand;
          pairs = filter (\<lambda>(rank, cnt). cnt \<ge> 2) (object_entries (rankCounts_000 ranks))
      in case pairs of
           [] \<Rightarrow> \<lparr>hr_type = ''High Card'', hr_rank = 1, primaryValue = None,
                  kicker = Some (map Some sortedValues)\<rparr>
         | (pairRank, cnt) # _ \<Rightarrow>
             let pairValue = getRankValue_000 pairRank
             in if cnt = 3
                then \<lparr>hr_type = ''Three of a Kind'', hr_rank = 3, primaryValue = Some pairValue,
                      kicker = None\<rparr>
                else \<lparr>hr_type = ''Pair'', hr_rank = 2, primaryValue = Some pairValue,
                      kicker = Some [List.find (\<lambda>v. v \<noteq> pairValue) sortedValues]\<rparr>)"

function kicker_loop_000 :: "nat \<Rightarrow> int option list \<Rightarrow> int option list \<Rightarrow> int option" where
  "kicker_loop_000 i kicker1 kicker2 =
     (if i < length kicker1
      then if greater (index kicker1 i) (index kicker2 i) then Some 1
           else if greater (index kicker2 i) (index kicker1 i) then Some 2
           else kicker_loop_000 (i + 1) kicker1 kicker2
      else None)"
  by pat_completeness auto
termination
  by (relation "measure (\<lambda>(i, kicker1, kicker2). length kicker1 - i)") auto

declare kicker_loop_000.simps [simp del]

definition compareHands_000 :: "hand_result \<Rightarrow> hand_result \<Rightarrow> int" where
  "compareHands_000 hand1 hand2 =
     (if hr_rank hand1 > hr_rank hand2 then 1
      else if hr_rank hand2 > hr_rank hand1 then 2
      else
        case (if primaryValue hand1 \<noteq> None \<and> primaryValue hand2 \<noteq> None
              then if greater (primaryValue hand1) (primaryValue hand2) then Some 1
                   else if greater (primaryValue hand2) (primaryValue hand1) then Some 2
                   else None
              else None) of
          Some w \<Rightarrow> w
        | None \<Rightarrow>
            (case (kicker hand1, kicker hand2) of
               (Some kicker1, Some kicker2) \<Rightarrow>
                 (case kicker_loop_000 0 kicker1 kicker2 of Some w \<Rightarrow> w | None \<Rightarrow> 0)
             | _ \<Rightarrow> 0))"

section \<open>Properties\<close>

subsection \<open>The deck\<close>

lemma createDeck_enum:
  "createDeck =
     map (\<lambda>i. \<lparr>card_rank = RANKS ! (i mod 13), card_suit = SUITS ! (i div 13),
               card_value = int (i mod 13) + 2\<rparr>) [0..<52]"
  by (simp add: createDeck_def RANKS_def SUITS_def upt_rec)

lemma createDeck_length: "length createDeck = 52"
  by (simp add: createDeck_def RANKS_def SUITS_def)

lemma createDeck_distinct: "distinct (map (\<lambda>c. (card_rank c, card_suit c)) createDeck)"
  by (simp add: createDeck_def RANKS_def SUITS_def)

text \<open>
  C8. A freshly built deck has 52 cards with pairwise distinct pairs of rank and suit.
  The card at position \<open>i\<close> has the suit number \<open>i div 13\<close> and the rank number
  \<open>i mod 13\<close> (suit-major, rank-minor), and its value is the position of its rank
  plus two: the ranks 2 to 10 have the values 2 to 10, and J, Q, K, A have 11, 12, 13, 14.
\<close>

theorem createDeck_fresh:
  "length createDeck = 52 \<and>
   distinct (map (\<lambda>c. (card_rank c, card_suit c)) createDeck) \<and>
   createDeck =
     map (\<lambda>i. \<lparr>card_rank = RANKS ! (i mod 13), card_suit = SUITS ! (i div 13),
               card_value = int (i mod 13) + 2\<rparr>) [0..<52] \<and>
   map (\<lambda>c. (card_rank c, card_value c)) (take 13 createDeck) =
     [(''2'', 2), (''3'', 3), (''4'', 4), (''5'', 5), (''6'', 6), (''7'', 7), (''8'', 8),
      (''9'', 9), (''10'', 10), (''J'', 11), (''Q'', 12), (''K'', 13), (''A'', 14)] \<and>
   map card_suit createDeck =
     replicate 13 ''H'' @ replicate 13 ''D'' @ replicate 13 ''C'' @ replicate 13 ''S''"
proof -
  have "map (\<lambda>c. (card_rank c, card_value c)) (take 13 createDeck) =
     [(''2'', 2), (''3'', 3), (''4'', 4), (''5'', 5), (''6'', 6), (''7'', 7), (''8'', 8),
      (''9'', 9), (''10'', 10), (''J'', 11), (''Q'', 12), (''K'', 13), (''A'', 14)]"
    by (simp add: createDeck_def RANKS_def SUITS_def)
  moreover have "map card_suit createDeck =
     replicate 13 ''H'' @ replicate 13 ''D'' @ replicate 13 ''C'' @ replicate 13 ''S''"
    by (simp add: createDeck_def RANKS_def SUITS_def eval_nat_numeral)
  ultimately show ?thesis
    using createDeck_length createDeck_distinct createDeck_enum by blast
qed

subsection \<open>shuffle\<close>

lemma swap_mset: "i < length xs \<Longrightarrow> j < length xs \<Longrightarrow> mset (swap i j xs) = mset xs"
  unfolding swap_def by (simp add: mset_swap)

lemma round_up_bound:
  fixes m :: int
  assumes "1 \<le> k"
  shows "(if m mod 2 ^ k > 2 ^ (k - 1) \<or> (m mod 2 ^ k = 2 ^ (k - 1) \<and> odd (m div 2 ^ k))
          then m div 2 ^ k + 1 else m div 2 ^ k) * 2 ^ k \<le> m + 2 ^ (k - 1)"
proof -
  have two: "(2::int) ^ k = 2 * 2 ^ (k - 1)"
    using assms by (cases k) simp_all
  have split: "m = m div 2 ^ k * 2 ^ k + m mod 2 ^ k"
    by (rule div_mult_mod_eq [symmetric])
  have nonneg: "0 \<le> m mod 2 ^ k" by simp
  show ?thesis
  proof (cases "m mod 2 ^ k > 2 ^ (k - 1) \<or> (m mod 2 ^ k = 2 ^ (k - 1) \<and> odd (m div 2 ^ k))")
    case True
    then have ge: "2 ^ (k - 1) \<le> m mod 2 ^ k" by auto
    have "(m div 2 ^ k + 1) * 2 ^ k = m div 2 ^ k * 2 ^ k + 2 ^ k"
      by (simp add: algebra_simps)
    also have "\<dots> = m - m mod 2 ^ k + 2 ^ k"
      using split by linarith
    also have "\<dots> \<le> m + 2 ^ (k - 1)"
      using ge two by linarith
    finally show ?thesis unfolding if_P [OF True] .
  next
    case False
    have "m div 2 ^ k * 2 ^ k \<le> m" using split nonneg by linarith
    moreover have "(0::int) \<le> 2 ^ (k - 1)" by simp
    ultimately show ?thesis unfolding if_not_P [OF False] by linarith
  qed
qed

lemma div_less_of_less_mult:
  fixes a :: int
  assumes "a < n * d" and "0 < d"
  shows "a div d < n"
proof (rule ccontr)
  assume "\<not> a div d < n"
  then have "n \<le> a div d" by simp
  then have "n * d \<le> a div d * d"
    using assms(2) by (simp add: mult_right_mono)
  also have "\<dots> \<le> a"
  proof -
    have "a = a div d * d + a mod d" by (rule div_mult_mod_eq [symmetric])
    moreover have "0 \<le> a mod d" using assms(2) by simp
    ultimately show ?thesis by linarith
  qed
  finally show False using assms(1) by simp
qed

lemma floor_times_integer:
  assumes d: "is_double x" and b: "below_one x" and n0: "0 < n" and n53: "int n < 2 ^ 53"
  shows "0 \<le> floor_double (times_integer x n) \<and> floor_double (times_integer x n) < int n"
proof -
  define m where "m = mantissa x"
  define e where "e = exponent x"
  define M where "M = m * int n"
  have m0: "0 \<le> m" and m53: "m < 2 ^ 53"
    using d by (simp_all add: is_double_def m_def)
  have M0: "0 \<le> M" using m0 by (simp add: M_def)
  have small: "m = 0 \<or> (e < 0 \<and> m < 2 ^ nat (- e))"
    using b by (simp add: below_one_def m_def e_def)
  show ?thesis
  proof (cases "bitlen M \<le> 53")
    case True
    then have res: "times_integer x n = \<lparr>mantissa = M, exponent = e\<rparr>"
      by (simp add: times_integer_def round_double_def M_def m_def e_def)
    show ?thesis
    proof (cases "m = 0")
      case True
      then show ?thesis using n0 by (simp add: res floor_double_def M_def)
    next
      case False
      with small have e: "e < 0" and m: "m < 2 ^ nat (- e)" by simp_all
      have "M < int n * 2 ^ nat (- e)"
        unfolding M_def using m n0 by (simp add: mult.commute)
      then have "M div 2 ^ nat (- e) < int n"
        by (rule div_less_of_less_mult) simp
      moreover have "0 \<le> M div 2 ^ nat (- e)"
        using M0 by (simp add: pos_imp_zdiv_nonneg_iff)
      ultimately show ?thesis using e by (simp add: res floor_double_def)
    qed
  next
    case False
    define k where "k = nat (bitlen M - 53)"
    from False have k1: "1 \<le> k" and bl: "bitlen M = 53 + int k"
      by (simp_all add: k_def)
    from False have Mpos: "0 < M"
      using M0 bitlen_eq_zero_iff [of M] by (cases "M = 0") auto
    then have mpos: "m \<noteq> 0" by (auto simp add: M_def)
    with small have e: "e < 0" and m: "m < 2 ^ nat (- e)" by simp_all
    define s0 where "s0 = nat (- e)"
    have m_s0: "m < 2 ^ s0" using m by (simp add: s0_def)
    have e_s0: "e = - int s0" using e by (simp add: s0_def)
    from bitlen_bounds [OF Mpos] bl
    have lower: "2 ^ (52 + k) \<le> M" and upper: "M < 2 ^ (53 + k)"
      by (simp_all add: nat_add_distrib)
    define q' where "q' =
      (if M mod 2 ^ k > 2 ^ (k - 1) \<or> (M mod 2 ^ k = 2 ^ (k - 1) \<and> odd (M div 2 ^ k))
       then M div 2 ^ k + 1 else M div 2 ^ k)"
    have res: "times_integer x n = \<lparr>mantissa = q', exponent = e + int k\<rparr>"
      using False
      by (simp add: times_integer_def round_double_def Let_def q'_def k_def M_def m_def e_def)
    have q'0: "0 \<le> q'"
      using M0 by (simp add: q'_def pos_imp_zdiv_nonneg_iff)
    have bound: "q' * 2 ^ k \<le> M + 2 ^ (k - 1)"
      unfolding q'_def by (rule round_up_bound [OF k1])
    \<comment> \<open>the exponent of the result is not positive\<close>
    have "M < 2 ^ s0 * 2 ^ 53"
    proof -
      have "M \<le> m * 2 ^ 53" unfolding M_def using m0 n53 by (simp add: mult_left_mono)
      also have "\<dots> < 2 ^ s0 * 2 ^ 53" using m_s0 by simp
      finally show ?thesis .
    qed
    with lower have "(2::int) ^ (52 + k) < 2 ^ (s0 + 53)"
      by (simp add: power_add)
    then have "52 + k < s0 + 53" by simp
    then have ks0: "k \<le> s0" by simp
    define s where "s = s0 - k"
    have s0_eq: "s0 = s + k" using ks0 by (simp add: s_def)
    \<comment> \<open>the rounded mantissa stays below \<open>n * 2 ^ s\<close>\<close>
    have key: "(2::int) ^ (k - 1) < int n * (2 ^ s0 - m)"
    proof (cases "s0 \<le> 53")
      case True
      have "(2::int) ^ (52 + k) < 2 ^ s0 * int n"
      proof -
        have "M < 2 ^ s0 * int n"
          unfolding M_def using m_s0 n0 by simp
        with lower show ?thesis by simp
      qed
      also have "\<dots> \<le> 2 ^ 53 * int n"
        by (rule mult_right_mono [OF power_increasing [OF True]]) simp_all
      finally have "(2::int) ^ 53 * 2 ^ (k - 1) < 2 ^ 53 * int n"
        using k1 by (cases k) (simp_all add: power_add)
      then have a: "(2::int) ^ (k - 1) < int n" by simp
      have "int n * 1 \<le> int n * (2 ^ s0 - m)"
        by (rule mult_left_mono) (use m_s0 in simp_all)
      then have "int n \<le> int n * (2 ^ s0 - m)" by simp
      with a show ?thesis by (rule less_le_trans)
    next
      case False
      have "k \<le> 53"
      proof -
        have "M < 2 ^ 53 * 2 ^ 53"
        proof -
          have "M \<le> m * 2 ^ 53" unfolding M_def using m0 n53 by (simp add: mult_left_mono)
          also have "\<dots> < 2 ^ 53 * 2 ^ 53" using m53 by simp
          finally show ?thesis .
        qed
        with lower have "(2::int) ^ (52 + k) < 2 ^ (53 + 53)" by (simp add: power_add)
        then have "52 + k < 53 + 53" by (simp only: power_strict_increasing_iff) 
        then show ?thesis by simp
      qed
      then have "k - 1 \<le> 52" by simp
      then have "(2::int) ^ (k - 1) \<le> 2 ^ 52"
        by (rule power_increasing) simp
      moreover have "(2::int) ^ 52 < 2 ^ 53" by simp
      moreover have "(2::int) ^ 53 + m \<le> 2 ^ s0"
      proof -
        from False have "54 \<le> s0" by simp
        then have "(2::int) ^ 54 \<le> 2 ^ s0" by (rule power_increasing) simp
        with m53 show ?thesis by simp
      qed
      moreover have "(2 ^ s0 - m) \<le> int n * (2 ^ s0 - m)"
      proof -
        have "1 * (2 ^ s0 - m) \<le> int n * (2 ^ s0 - m)"
          by (rule mult_right_mono) (use m_s0 n0 in simp_all)
        then show ?thesis by simp
      qed
      ultimately show ?thesis by linarith
    qed
    have "q' * 2 ^ k < int n * 2 ^ s * 2 ^ k"
    proof -
      have "M + 2 ^ (k - 1) < int n * 2 ^ s0"
        using key by (simp add: M_def algebra_simps)
      also have "int n * 2 ^ s0 = int n * 2 ^ s * 2 ^ k"
        by (simp add: s0_eq power_add)
      finally show ?thesis using bound by linarith
    qed
    then have q'_less: "q' < int n * 2 ^ s"
      by (simp only: mult_less_cancel_right) simp
    then have fl: "q' div 2 ^ s < int n"
      by (rule div_less_of_less_mult) simp
    have fl0: "0 \<le> q' div 2 ^ s"
      using q'0 by (simp add: pos_imp_zdiv_nonneg_iff)
    have ex: "e + int k = - int s" by (simp add: e_s0 s0_eq)
    show ?thesis
    proof (cases "s = 0")
      case True
      with q'_less q'0 ex show ?thesis by (simp add: res floor_double_def)
    next
      case False
      with fl fl0 ex show ?thesis by (simp add: res floor_double_def)
    qed
  qed
qed

lemma shuffle_index:
  assumes "random_ok rnd" and "Suc (Suc n) < 2 ^ 32"
  shows "nat (floor_double (times_integer (rnd k) (Suc n + 1))) < Suc (Suc n)"
proof -
  from assms(2) have "Suc n + 1 < 2 ^ 32" by simp
  then have "int (Suc n + 1) < int (2 ^ 32)" by (simp only: of_nat_less_iff)
  then have "int (Suc n + 1) < 2 ^ 32" by simp
  also have "(2::int) ^ 32 < 2 ^ 53" by simp
  finally have "int (Suc n + 1) < 2 ^ 53" .
  moreover from assms(1) have "is_double (rnd k)" and "below_one (rnd k)"
    by (simp_all add: random_ok_def)
  ultimately have "floor_double (times_integer (rnd k) (Suc n + 1)) < int (Suc n + 1)"
    using floor_times_integer [of "rnd k" "Suc n + 1"] by simp
  then show ?thesis by simp
qed

lemma shuffle_loop_mset:
  "random_ok rnd \<Longrightarrow> n < length array \<Longrightarrow> length array < 2 ^ 32 \<Longrightarrow>
   mset (shuffle_loop rnd k n array) = mset array"
proof (induction n arbitrary: k array)
  case 0 then show ?case by simp
next
  case (Suc n)
  from Suc.prems(2,3) have "Suc (Suc n) < 2 ^ 32" by simp
  then have j: "nat (floor_double (times_integer (rnd k) (Suc n + 1))) < Suc (Suc n)"
    by (rule shuffle_index [OF Suc.prems(1)])
  have len: "length (swap i j array) = length array" for i j by (simp add: swap_def)
  show ?case using Suc.prems j
    by (simp add: Let_def Suc.IH len swap_mset)
qed

lemma shuffle_mset:
  "random_ok rnd \<Longrightarrow> length array < 2 ^ 32 \<Longrightarrow> mset (shuffle rnd k array) = mset array"
  by (cases array) (simp_all add: shuffle_def shuffle_loop_mset)

lemma shuffle_length: "length (shuffle rnd k array) = length array"
proof -
  have "length (shuffle_loop rnd k n xs) = length xs" for n and xs :: "'a list"
    by (induction n arbitrary: k xs) (simp_all add: Let_def swap_def)
  then show ?thesis by (simp add: shuffle_def)
qed

text \<open>
  The product is rounded: for the double nearest to 4/7 and \<open>i = 6\<close> the exact product
  is less than 4, and the index is 4.
\<close>

lemma times_integer_rounds:
  "floor_double (times_integer \<lparr>mantissa = 5146971002709138, exponent = - 53\<rparr> 7) = 4 \<and>
   5146971002709138 * 7 < (4 :: int) * 2 ^ 53"
  by code_simp

text \<open>
  C9. Whatever doubles from 0 up to but without 1 the random source returns, the array
  after \<open>shuffle\<close> holds the same elements as before, each as often as before.
  This holds for every array: the length of a JavaScript array is below \<open>2 ^ 32\<close>.
\<close>

theorem shuffle_permutation:
  "random_ok rnd \<Longrightarrow> length array < 2 ^ 32 \<Longrightarrow> mset (shuffle rnd k array) = mset array"
  by (rule shuffle_mset)

theorem shuffle_permutation_witness:
  "shuffle (\<lambda>k. \<lparr>mantissa = 5146971002709138, exponent = - 53\<rparr>) 0 [1, 2, 3, 4, 5, 6, 7 :: int] =
     [1, 6, 2, 7, 3, 4, 5] \<and>
   mset (shuffle (\<lambda>k. \<lparr>mantissa = 5146971002709138, exponent = - 53\<rparr>) 0
           [1, 2, 3, 4, 5, 6, 7 :: int]) = mset [1, 2, 3, 4, 5, 6, 7]"
proof -
  have "random_ok (\<lambda>k. \<lparr>mantissa = 5146971002709138, exponent = - 53\<rparr>)"
    by (simp add: random_ok_def is_double_def below_one_def)
  moreover have "length [1, 2, 3, 4, 5, 6, 7 :: int] < 2 ^ 32" by simp
  ultimately have "mset (shuffle (\<lambda>k. \<lparr>mantissa = 5146971002709138, exponent = - 53\<rparr>) 0
           [1, 2, 3, 4, 5, 6, 7 :: int]) = mset [1, 2, 3, 4, 5, 6, 7]"
    by (rule shuffle_permutation)
  moreover have
    "shuffle (\<lambda>k. \<lparr>mantissa = 5146971002709138, exponent = - 53\<rparr>) 0 [1, 2, 3, 4, 5, 6, 7 :: int] =
     [1, 6, 2, 7, 3, 4, 5]"
    by code_simp
  ultimately show ?thesis by simp
qed

subsection \<open>evaluateHand\<close>

lemma object_entries_mset: "mset (object_entries obj) = mset obj"
  by (simp add: object_entries_def)

lemma filter_object_entries_single:
  assumes "filter P obj = [e]" shows "filter P (object_entries obj) = [e]"
proof -
  have "mset (filter P (object_entries obj)) = mset (filter P obj)"
    by (simp add: object_entries_mset)
  also have "\<dots> = {#e#}" using assms by simp
  finally show ?thesis by (simp only: mset_single_iff)
qed

lemma filter_object_entries_empty:
  assumes "filter P obj = []" shows "filter P (object_entries obj) = []"
proof -
  have "mset (filter P (object_entries obj)) = mset (filter P obj)"
    by (simp add: object_entries_mset)
  also have "\<dots> = {#}" using assms by simp
  finally show ?thesis by (simp only: mset_zero_iff)
qed

lemma getRankValue_RANKS_nth:
  assumes "r \<in> set RANKS" shows "RANKS ! nat (getRankValue r - 2) = r"
  using assms unfolding RANKS_def getRankValue_def rankMap_def or_zero_def
  by (simp, elim disjE) simp_all

lemma getRankValue_range:
  assumes "r \<in> set RANKS" shows "2 \<le> getRankValue r \<and> getRankValue r \<le> 14"
  using assms unfolding RANKS_def getRankValue_def rankMap_def or_zero_def
  by (simp, elim disjE) simp_all

lemma getRankValue_inj:
  assumes "r \<in> set RANKS" "r' \<in> set RANKS" "getRankValue r = getRankValue r'"
  shows "r = r'"
  using assms getRankValue_RANKS_nth by metis

lemma rankCounts_3:
  "rankCounts [r1, r2, r3] =
     (if r1 = r2 then (if r2 = r3 then [(r1, 3)] else [(r1, 2), (r3, 1)])
      else if r1 = r3 then [(r1, 2), (r2, 1)]
      else if r2 = r3 then [(r1, 1), (r2, 2)]
      else [(r1, 1), (r2, 1), (r3, 1)])"
  by (simp add: rankCounts_def count_rank_def or_zero_def)

lemma find_unique:
  assumes "y \<in> set xs" and "P y" and "\<And>x. x \<in> set xs \<Longrightarrow> P x \<Longrightarrow> x = y"
  shows "List.find P xs = Some y"
  using assms
proof (induction xs)
  case Nil
  then show ?case by simp
next
  case (Cons a xs)
  show ?case
  proof (cases "P a")
    case True
    have "a = y" by (rule Cons.prems(3)) (simp_all add: True)
    with True show ?thesis by simp
  next
    case False
    with Cons.prems(1,2) have mem: "y \<in> set xs" by auto
    have uniq: "\<And>x. x \<in> set xs \<Longrightarrow> P x \<Longrightarrow> x = y"
      by (rule Cons.prems(3)) simp_all
    have "List.find P xs = Some y"
      by (rule Cons.IH [OF mem Cons.prems(2) uniq])
    with False show ?thesis by simp
  qed
qed

lemma sorted_rev_of_neg: "sorted (map (\<lambda>v::int. - v) ys) \<Longrightarrow> sorted (rev ys)"
  by (simp add: sorted_wrt_rev sorted_wrt_map)
lemma sort_descending_rev_sort: "sort_descending vs = rev (sort vs)"
proof -
  have "sorted (rev (sort_descending vs))"
    unfolding sort_descending_def by (rule sorted_rev_of_neg) simp
  moreover have "mset (rev (sort_descending vs)) = mset vs"
    by (simp add: sort_descending_def)
  ultimately have "sort vs = rev (sort_descending vs)"
    by (simp add: properties_for_sort)
  then show ?thesis by simp
qed

lemma pairs_3:
  "filter (\<lambda>(rank, cnt). cnt \<ge> 2) (object_entries (rankCounts [r1, r2, r3])) =
     (if r1 = r2 then (if r2 = r3 then [(r1, 3)] else [(r1, 2)])
      else if r1 = r3 then [(r1, 2)]
      else if r2 = r3 then [(r2, 2)]
      else [])"
proof -
  let ?P = "\<lambda>(rank :: string, cnt :: int). cnt \<ge> 2"
  have "filter ?P (rankCounts [r1, r2, r3]) =
     (if r1 = r2 then (if r2 = r3 then [(r1, 3)] else [(r1, 2)])
      else if r1 = r3 then [(r1, 2)]
      else if r2 = r3 then [(r2, 2)]
      else [])"
    by (simp add: rankCounts_3)
  then show ?thesis
    by (simp add: filter_object_entries_single filter_object_entries_empty split: if_splits)
qed

lemma kicker_of_pair:
  assumes "p \<noteq> q" and "mset vs = {#p, p, q#}"
  shows "List.find (\<lambda>v. v \<noteq> p) (sort_descending vs) = Some q"
proof (rule find_unique)
  have s: "set (sort_descending vs) = set_mset (mset vs)"
    by (simp add: sort_descending_def)
  show "q \<in> set (sort_descending vs)" by (simp add: s assms(2))
  show "q \<noteq> p" using assms(1) by simp
  show "\<And>x. x \<in> set (sort_descending vs) \<Longrightarrow> x \<noteq> p \<Longrightarrow> x = q"
    by (simp add: s assms(2))
qed

lemma kicker_of_pair_3:
  assumes "p \<noteq> (q :: int)"
  shows "List.find (\<lambda>v. v \<noteq> p) (sort_descending [p, p, q]) = Some q"
    and "List.find (\<lambda>v. v \<noteq> p) (sort_descending [p, q, p]) = Some q"
    and "List.find (\<lambda>v. v \<noteq> p) (sort_descending [q, p, p]) = Some q"
  by (rule kicker_of_pair [OF assms], simp)+

lemma evaluateHand_3:
  assumes "r1 \<in> set RANKS" "r2 \<in> set RANKS" "r3 \<in> set RANKS"
    and "card_rank c1 = r1" "card_rank c2 = r2" "card_rank c3 = r3"
  shows "evaluateHand [c1, c2, c3] =
     (if r1 = r2 \<and> r2 = r3
      then \<lparr>hr_type = ''Three of a Kind'', hr_rank = 3, primaryValue = Some (getRankValue r1),
            kicker = None\<rparr>
      else if r1 = r2
      then \<lparr>hr_type = ''Pair'', hr_rank = 2, primaryValue = Some (getRankValue r1),
            kicker = Some [Some (getRankValue r3)]\<rparr>
      else if r1 = r3
      then \<lparr>hr_type = ''Pair'', hr_rank = 2, primaryValue = Some (getRankValue r1),
            kicker = Some [Some (getRankValue r2)]\<rparr>
      else if r2 = r3
      then \<lparr>hr_type = ''Pair'', hr_rank = 2, primaryValue = Some (getRankValue r2),
            kicker = Some [Some (getRankValue r1)]\<rparr>
      else \<lparr>hr_type = ''High Card'', hr_rank = 1, primaryValue = None,
            kicker = Some (map Some (rev (sort (rank_values [c1, c2, c3]))))\<rparr>)"
proof -
  have ne: "r \<in> set RANKS \<Longrightarrow> r' \<in> set RANKS \<Longrightarrow> r \<noteq> r' \<Longrightarrow> getRankValue r \<noteq> getRankValue r'"
    for r r' using getRankValue_inj by blast
  consider (three) "r1 = r2" "r2 = r3"
    | (pair12) "r1 = r2" "r2 \<noteq> r3"
    | (pair13) "r1 \<noteq> r2" "r1 = r3"
    | (pair23) "r1 \<noteq> r2" "r1 \<noteq> r3" "r2 = r3"
    | (high) "r1 \<noteq> r2" "r1 \<noteq> r3" "r2 \<noteq> r3"
    by blast
  then show ?thesis
  proof cases
    case three
    then show ?thesis
      unfolding evaluateHand_def Let_def by (simp add: assms(4-6) pairs_3)
  next
    case pair12
    have "getRankValue r2 \<noteq> getRankValue r3" using ne assms(2,3) pair12(2) by blast
    with pair12 show ?thesis
      unfolding evaluateHand_def Let_def by (simp add: assms(4-6) pairs_3 kicker_of_pair_3)
  next
    case pair13
    have "getRankValue r3 \<noteq> getRankValue r2" using ne assms(2,3) pair13 by blast
    with pair13 show ?thesis
      unfolding evaluateHand_def Let_def by (simp add: assms(4-6) pairs_3 kicker_of_pair_3)
  next
    case pair23
    have "getRankValue r3 \<noteq> getRankValue r1" using ne assms(1,3) pair23 by blast
    with pair23 show ?thesis
      unfolding evaluateHand_def Let_def by (simp add: assms(4-6) pairs_3 kicker_of_pair_3)
  next
    case high
    then show ?thesis
      unfolding evaluateHand_def Let_def
      by (simp add: assms(4-6) pairs_3 rank_values_def sort_descending_rev_sort)
  qed
qed

lemma length_3_cases:
  assumes "length xs = 3" obtains a b c where "xs = [a, b, c]"
proof -
  from assms obtain a ys where xs: "xs = a # ys" and "length ys = 2" by (cases xs) auto
  then obtain b zs where ys: "ys = b # zs" and "length zs = 1" by (cases ys) auto
  then obtain c where "zs = [c]" by (cases zs) auto
  with xs ys show ?thesis using that by simp
qed

text \<open>
  C1. For a hand of three cards: if some rank occurs three times, the result is Three of
  a Kind with rank 3, the value of that rank as primary value and no kickers; else if
  some rank occurs twice, it is Pair with rank 2, the value of the paired rank as primary
  value and the value of the remaining rank as the only kicker; else it is High Card
  with rank 1, no primary value and the three rank values in descending order as kickers.
\<close>

theorem evaluateHand_categories:
  assumes "length hand = 3" and "\<forall>c\<in>set hand. card_rank c \<in> set RANKS"
  shows "(\<forall>r. occurrences hand r = 3 \<longrightarrow>
            evaluateHand hand =
              \<lparr>hr_type = ''Three of a Kind'', hr_rank = 3, primaryValue = Some (getRankValue r),
               kicker = None\<rparr>) \<and>
         ((\<forall>r. occurrences hand r \<noteq> 3) \<longrightarrow>
            (\<forall>r q. occurrences hand r = 2 \<and> occurrences hand q = 1 \<longrightarrow>
               evaluateHand hand =
                 \<lparr>hr_type = ''Pair'', hr_rank = 2, primaryValue = Some (getRankValue r),
                  kicker = Some [Some (getRankValue q)]\<rparr>)) \<and>
         ((\<forall>r. occurrences hand r \<noteq> 3 \<and> occurrences hand r \<noteq> 2) \<longrightarrow>
            evaluateHand hand =
              \<lparr>hr_type = ''High Card'', hr_rank = 1, primaryValue = None,
               kicker = Some (map Some (rev (sort (rank_values hand))))\<rparr>)"
proof -
  from assms(1) obtain c1 c2 c3 where hand: "hand = [c1, c2, c3]" by (rule length_3_cases)
  define r1 where "r1 = card_rank c1"
  define r2 where "r2 = card_rank c2"
  define r3 where "r3 = card_rank c3"
  note r_defs = r1_def r2_def r3_def
  have in_ranks: "r1 \<in> set RANKS" "r2 \<in> set RANKS" "r3 \<in> set RANKS"
    using assms(2) by (simp_all add: hand r_defs)
  have occ: "occurrences hand r =
      (if r1 = r then 1 else 0) + (if r2 = r then 1 else 0) + (if r3 = r then 1 else 0)" for r
    by (simp add: occurrences_def hand r_defs)
  note ev = evaluateHand_3 [OF in_ranks r1_def [symmetric] r2_def [symmetric] r3_def [symmetric], folded hand]
  consider (three) "r1 = r2" "r2 = r3"
    | (pair12) "r1 = r2" "r2 \<noteq> r3"
    | (pair13) "r1 \<noteq> r2" "r1 = r3"
    | (pair23) "r1 \<noteq> r2" "r1 \<noteq> r3" "r2 = r3"
    | (high) "r1 \<noteq> r2" "r1 \<noteq> r3" "r2 \<noteq> r3"
    by blast
  then show ?thesis
  proof cases
    case three
    then show ?thesis by (auto simp: occ ev split: if_splits)
  next
    case pair12
    then show ?thesis by (auto simp: occ ev split: if_splits)
  next
    case pair13
    then show ?thesis by (auto simp: occ ev split: if_splits)
  next
    case pair23
    then show ?thesis by (auto simp: occ ev split: if_splits)
  next
    case high
    then show ?thesis by (auto simp: occ ev split: if_splits)
  qed
qed

theorem evaluateHand_categories_witness:
  "evaluateHand
     [\<lparr>card_rank = ''2'', card_suit = ''H'', card_value = 2\<rparr>,
      \<lparr>card_rank = ''2'', card_suit = ''D'', card_value = 2\<rparr>,
      \<lparr>card_rank = ''2'', card_suit = ''C'', card_value = 2\<rparr>] =
     \<lparr>hr_type = ''Three of a Kind'', hr_rank = 3, primaryValue = Some 2, kicker = None\<rparr> \<and>
   evaluateHand
     [\<lparr>card_rank = ''K'', card_suit = ''H'', card_value = 13\<rparr>,
      \<lparr>card_rank = ''K'', card_suit = ''D'', card_value = 13\<rparr>,
      \<lparr>card_rank = ''5'', card_suit = ''C'', card_value = 5\<rparr>] =
     \<lparr>hr_type = ''Pair'', hr_rank = 2, primaryValue = Some 13, kicker = Some [Some 5]\<rparr> \<and>
   evaluateHand
     [\<lparr>card_rank = ''A'', card_suit = ''S'', card_value = 14\<rparr>,
      \<lparr>card_rank = ''7'', card_suit = ''D'', card_value = 7\<rparr>,
      \<lparr>card_rank = ''3'', card_suit = ''C'', card_value = 3\<rparr>] =
     \<lparr>hr_type = ''High Card'', hr_rank = 1, primaryValue = None,
      kicker = Some [Some 14, Some 7, Some 3]\<rparr>"
proof -
  let ?t = "[\<lparr>card_rank = ''2'', card_suit = ''H'', card_value = 2\<rparr>,
      \<lparr>card_rank = ''2'', card_suit = ''D'', card_value = 2\<rparr>,
      \<lparr>card_rank = ''2'', card_suit = ''C'', card_value = 2\<rparr>]"
  let ?p = "[\<lparr>card_rank = ''K'', card_suit = ''H'', card_value = 13\<rparr>,
      \<lparr>card_rank = ''K'', card_suit = ''D'', card_value = 13\<rparr>,
      \<lparr>card_rank = ''5'', card_suit = ''C'', card_value = 5\<rparr>]"
  let ?h = "[\<lparr>card_rank = ''A'', card_suit = ''S'', card_value = 14\<rparr>,
      \<lparr>card_rank = ''7'', card_suit = ''D'', card_value = 7\<rparr>,
      \<lparr>card_rank = ''3'', card_suit = ''C'', card_value = 3\<rparr>]"
  note vals = getRankValue_def rankMap_def or_zero_def
  have t: "length ?t = 3" "\<forall>c\<in>set ?t. card_rank c \<in> set RANKS"
    by (simp_all add: RANKS_def)
  have "occurrences ?t ''2'' = 3" by (simp add: occurrences_def)
  with evaluateHand_categories [OF t, THEN conjunct1, rule_format, of "''2''"]
  have three: "evaluateHand ?t =
      \<lparr>hr_type = ''Three of a Kind'', hr_rank = 3, primaryValue = Some 2, kicker = None\<rparr>"
    by (simp add: vals)
  have p: "length ?p = 3" "\<forall>c\<in>set ?p. card_rank c \<in> set RANKS"
    by (simp_all add: RANKS_def)
  have "\<forall>r. occurrences ?p r \<noteq> 3" by (simp add: occurrences_def)
  moreover have "occurrences ?p ''K'' = 2 \<and> occurrences ?p ''5'' = 1"
    by (simp add: occurrences_def)
  ultimately have pair: "evaluateHand ?p =
      \<lparr>hr_type = ''Pair'', hr_rank = 2, primaryValue = Some 13, kicker = Some [Some 5]\<rparr>"
    using evaluateHand_categories [OF p, THEN conjunct2, THEN conjunct1, rule_format,
        of "''K''" "''5''"]
    by (simp add: vals)
  have h: "length ?h = 3" "\<forall>c\<in>set ?h. card_rank c \<in> set RANKS"
    by (simp_all add: RANKS_def)
  have "\<forall>r. occurrences ?h r \<noteq> 3 \<and> occurrences ?h r \<noteq> 2"
    by (auto simp add: occurrences_def)
  with evaluateHand_categories [OF h, THEN conjunct2, THEN conjunct2, rule_format]
  have high: "evaluateHand ?h =
      \<lparr>hr_type = ''High Card'', hr_rank = 1, primaryValue = None,
       kicker = Some [Some 14, Some 7, Some 3]\<rparr>"
    by (simp add: vals rank_values_def)
  from three pair high show ?thesis by simp
qed

subsection \<open>compareHands\<close>

lemma evaluateHand_shape:
  assumes "valid_hand hand"
  shows "(\<exists>p. evaluateHand hand =
            \<lparr>hr_type = ''Three of a Kind'', hr_rank = 3, primaryValue = Some p, kicker = None\<rparr>) \<or>
         (\<exists>p k. evaluateHand hand =
            \<lparr>hr_type = ''Pair'', hr_rank = 2, primaryValue = Some p, kicker = Some [Some k]\<rparr>) \<or>
         (\<exists>k1 k2 k3. evaluateHand hand =
            \<lparr>hr_type = ''High Card'', hr_rank = 1, primaryValue = None,
             kicker = Some [Some k1, Some k2, Some k3]\<rparr>)"
proof -
  from assms obtain c1 c2 c3 where hand: "hand = [c1, c2, c3]"
    unfolding valid_hand_def by (blast elim: length_3_cases)
  have in_ranks: "card_rank c1 \<in> set RANKS" "card_rank c2 \<in> set RANKS" "card_rank c3 \<in> set RANKS"
    using assms by (simp_all add: valid_hand_def hand)
  have "length (rev (sort (rank_values [c1, c2, c3]))) = 3"
    by (simp add: rank_values_def)
  then obtain k1 k2 k3 where "rev (sort (rank_values [c1, c2, c3])) = [k1, k2, k3]"
    by (rule length_3_cases)
  then show ?thesis
    unfolding hand evaluateHand_3 [OF in_ranks refl refl refl] by simp
qed

lemma upt_sets:
  "{0..<Suc 0} = {0}" "{0..<Suc (Suc 0)} = {0, Suc 0}"
  "{0..<Suc (Suc (Suc 0))} = {0, Suc 0, Suc (Suc 0)}"
  by auto

lemma compareHands_three_three:
  "compareHands \<lparr>hr_type = t, hr_rank = 3, primaryValue = Some p, kicker = None\<rparr>
                \<lparr>hr_type = t', hr_rank = 3, primaryValue = Some p', kicker = None\<rparr> =
     (if p > p' then 1 else if p' > p then 2 else 0)"
  by (simp add: compareHands_def)

lemma compareHands_pair_pair:
  "compareHands \<lparr>hr_type = t, hr_rank = 2, primaryValue = Some p, kicker = Some [Some k]\<rparr>
                \<lparr>hr_type = t', hr_rank = 2, primaryValue = Some p', kicker = Some [Some k']\<rparr> =
     (if p > p' then 1 else if p' > p then 2 else if k > k' then 1 else if k' > k then 2 else 0)"
  by (simp add: compareHands_def kicker_loop.simps index_def)

lemma compareHands_high_high:
  "compareHands \<lparr>hr_type = t, hr_rank = 1, primaryValue = None, kicker = Some [Some a1, Some a2, Some a3]\<rparr>
                \<lparr>hr_type = t', hr_rank = 1, primaryValue = None, kicker = Some [Some b1, Some b2, Some b3]\<rparr> =
     (if a1 > b1 then 1 else if b1 > a1 then 2
      else if a2 > b2 then 1 else if b2 > a2 then 2
      else if a3 > b3 then 1 else if b3 > a3 then 2 else 0)"
  by (simp add: compareHands_def kicker_loop.simps index_def)

lemma decisive_three_three:
  "decisive_for \<lparr>hr_type = t, hr_rank = 3, primaryValue = Some p, kicker = None\<rparr>
                \<lparr>hr_type = t', hr_rank = 3, primaryValue = Some p', kicker = None\<rparr> = (p > p')"
  by (simp add: decisive_for_def kickers_greater_def kickers_of_def)

lemma decisive_pair_pair:
  "decisive_for \<lparr>hr_type = t, hr_rank = 2, primaryValue = Some p, kicker = Some [Some k]\<rparr>
                \<lparr>hr_type = t', hr_rank = 2, primaryValue = Some p', kicker = Some [Some k']\<rparr> =
     (p > p' \<or> (p = p' \<and> k > k'))"
  by (simp add: decisive_for_def kickers_greater_def kickers_of_def upt_sets)

lemma decisive_high_high:
  "decisive_for \<lparr>hr_type = t, hr_rank = 1, primaryValue = None, kicker = Some [Some a1, Some a2, Some a3]\<rparr>
                \<lparr>hr_type = t', hr_rank = 1, primaryValue = None, kicker = Some [Some b1, Some b2, Some b3]\<rparr> =
     (a1 > b1 \<or> (a1 = b1 \<and> a2 > b2) \<or> (a1 = b1 \<and> a2 = b2 \<and> a3 > b3))"
  by (simp add: decisive_for_def kickers_greater_def kickers_of_def upt_sets)

lemma decisive_ranks:
  "hr_rank a > hr_rank b \<Longrightarrow> decisive_for a b"
  "hr_rank a > hr_rank b \<Longrightarrow> \<not> decisive_for b a"
  by (simp_all add: decisive_for_def)

lemma compareHands_ranks:
  "hr_rank a > hr_rank b \<Longrightarrow> compareHands a b = 1"
  "hr_rank a > hr_rank b \<Longrightarrow> compareHands b a = 2"
  by (simp_all add: compareHands_def)

text \<open>
  C2. For the results of two hands, \<open>compareHands\<close> returns 1 exactly when the first
  is decisively ahead of the second, 2 exactly when the second is decisively ahead of
  the first, and 0 exactly when neither is; it returns nothing else.
\<close>

theorem compareHands_decides:
  assumes "valid_hand hand1" and "valid_hand hand2"
  shows "(compareHands (evaluateHand hand1) (evaluateHand hand2) = 1 \<longleftrightarrow>
            decisive_for (evaluateHand hand1) (evaluateHand hand2)) \<and>
         (compareHands (evaluateHand hand1) (evaluateHand hand2) = 2 \<longleftrightarrow>
            decisive_for (evaluateHand hand2) (evaluateHand hand1)) \<and>
         (compareHands (evaluateHand hand1) (evaluateHand hand2) = 0 \<longleftrightarrow>
            \<not> decisive_for (evaluateHand hand1) (evaluateHand hand2) \<and>
            \<not> decisive_for (evaluateHand hand2) (evaluateHand hand1)) \<and>
         compareHands (evaluateHand hand1) (evaluateHand hand2) \<in> {0, 1, 2}"
proof -
  define a where "a = evaluateHand hand1"
  define b where "b = evaluateHand hand2"
  have goal: "(compareHands a b = 1 \<longleftrightarrow> decisive_for a b) \<and>
         (compareHands a b = 2 \<longleftrightarrow> decisive_for b a) \<and>
         (compareHands a b = 0 \<longleftrightarrow> \<not> decisive_for a b \<and> \<not> decisive_for b a) \<and>
         compareHands a b \<in> {0, 1, 2}"
    if "hr_rank a \<noteq> hr_rank b" for a b
  proof (cases "hr_rank a > hr_rank b")
    case True
    then show ?thesis by (simp add: decisive_ranks compareHands_ranks)
  next
    case False
    with that have "hr_rank b > hr_rank a" by simp
    then show ?thesis by (simp add: decisive_ranks compareHands_ranks)
  qed
  consider (three) p where "a = \<lparr>hr_type = ''Three of a Kind'', hr_rank = 3, primaryValue = Some p, kicker = None\<rparr>"
    | (pair) p k where "a = \<lparr>hr_type = ''Pair'', hr_rank = 2, primaryValue = Some p, kicker = Some [Some k]\<rparr>"
    | (high) k1 k2 k3 where "a = \<lparr>hr_type = ''High Card'', hr_rank = 1, primaryValue = None,
             kicker = Some [Some k1, Some k2, Some k3]\<rparr>"
    using evaluateHand_shape [OF assms(1)] unfolding a_def by blast
  note shape_a = this
  consider (three) p where "b = \<lparr>hr_type = ''Three of a Kind'', hr_rank = 3, primaryValue = Some p, kicker = None\<rparr>"
    | (pair) p k where "b = \<lparr>hr_type = ''Pair'', hr_rank = 2, primaryValue = Some p, kicker = Some [Some k]\<rparr>"
    | (high) k1 k2 k3 where "b = \<lparr>hr_type = ''High Card'', hr_rank = 1, primaryValue = None,
             kicker = Some [Some k1, Some k2, Some k3]\<rparr>"
    using evaluateHand_shape [OF assms(2)] unfolding b_def by blast
  note shape_b = this
  have "(compareHands a b = 1 \<longleftrightarrow> decisive_for a b) \<and>
         (compareHands a b = 2 \<longleftrightarrow> decisive_for b a) \<and>
         (compareHands a b = 0 \<longleftrightarrow> \<not> decisive_for a b \<and> \<not> decisive_for b a) \<and>
         compareHands a b \<in> {0, 1, 2}"
  proof (cases rule: shape_a)
    case a3: three
    show ?thesis
    proof (cases rule: shape_b)
      case three
      show ?thesis unfolding a3 three compareHands_three_three decisive_three_three by auto
    next
      case pair
      show ?thesis by (rule goal) (simp add: a3 pair)
    next
      case high
      show ?thesis by (rule goal) (simp add: a3 high)
    qed
  next
    case a2: pair
    show ?thesis
    proof (cases rule: shape_b)
      case three
      show ?thesis by (rule goal) (simp add: a2 three)
    next
      case pair
      show ?thesis unfolding a2 pair compareHands_pair_pair decisive_pair_pair by auto
    next
      case high
      show ?thesis by (rule goal) (simp add: a2 high)
    qed
  next
    case a1: high
    show ?thesis
    proof (cases rule: shape_b)
      case three
      show ?thesis by (rule goal) (simp add: a1 three)
    next
      case pair
      show ?thesis by (rule goal) (simp add: a1 pair)
    next
      case high
      show ?thesis unfolding a1 high compareHands_high_high decisive_high_high by auto
    qed
  qed
  then show ?thesis unfolding a_def b_def .
qed

theorem compareHands_decides_witness:
  "compareHands
     (evaluateHand
        [\<lparr>card_rank = ''K'', card_suit = ''H'', card_value = 13\<rparr>,
         \<lparr>card_rank = ''K'', card_suit = ''D'', card_value = 13\<rparr>,
         \<lparr>card_rank = ''5'', card_suit = ''C'', card_value = 5\<rparr>])
     (evaluateHand
        [\<lparr>card_rank = ''9'', card_suit = ''S'', card_value = 9\<rparr>,
         \<lparr>card_rank = ''K'', card_suit = ''C'', card_value = 13\<rparr>,
         \<lparr>card_rank = ''K'', card_suit = ''S'', card_value = 13\<rparr>]) = 2 \<and>
   decisive_for
     (evaluateHand
        [\<lparr>card_rank = ''9'', card_suit = ''S'', card_value = 9\<rparr>,
         \<lparr>card_rank = ''K'', card_suit = ''C'', card_value = 13\<rparr>,
         \<lparr>card_rank = ''K'', card_suit = ''S'', card_value = 13\<rparr>])
     (evaluateHand
        [\<lparr>card_rank = ''K'', card_suit = ''H'', card_value = 13\<rparr>,
         \<lparr>card_rank = ''K'', card_suit = ''D'', card_value = 13\<rparr>,
         \<lparr>card_rank = ''5'', card_suit = ''C'', card_value = 5\<rparr>])"
proof -
  let ?a = "[\<lparr>card_rank = ''K'', card_suit = ''H'', card_value = 13\<rparr>,
         \<lparr>card_rank = ''K'', card_suit = ''D'', card_value = 13\<rparr>,
         \<lparr>card_rank = ''5'', card_suit = ''C'', card_value = 5\<rparr>]"
  let ?b = "[\<lparr>card_rank = ''9'', card_suit = ''S'', card_value = 9\<rparr>,
         \<lparr>card_rank = ''K'', card_suit = ''C'', card_value = 13\<rparr>,
         \<lparr>card_rank = ''K'', card_suit = ''S'', card_value = 13\<rparr>]"
  have a: "valid_hand ?a" by (simp add: valid_hand_def RANKS_def)
  have b: "valid_hand ?b" by (simp add: valid_hand_def RANKS_def)
  have "compareHands (evaluateHand ?a) (evaluateHand ?b) = 2"
    by code_simp
  with compareHands_decides [OF a b] show ?thesis by simp
qed

subsection \<open>The two variants\<close>

lemma shuffle_loop_000_eq: "shuffle_loop_000 rnd k n array = shuffle_loop rnd k n array"
  by (induction n arbitrary: k array) (simp_all add: Let_def)

lemma kicker_loop_000_step: "kicker_loop_000 i kicker1 kicker2 = kicker_loop i kicker1 kicker2"
proof (induction i kicker1 kicker2 rule: kicker_loop.induct)
  case (1 i kicker1 kicker2)
  then show ?case
    by (subst kicker_loop.simps, subst kicker_loop_000.simps) auto
qed

lemma kicker_loop_000_eq: "kicker_loop_000 = kicker_loop"
  by (intro ext) (rule kicker_loop_000_step)

lemma getRankValue_000_eq: "getRankValue_000 = getRankValue"
  by (intro ext) (simp add: getRankValue_000_def getRankValue_def rankMap_000_def rankMap_def)

lemma rankCounts_000_eq: "rankCounts_000 = rankCounts"
proof -
  have "count_rank_000 = count_rank"
    by (intro ext) (simp add: count_rank_000_def count_rank_def)
  then show ?thesis by (intro ext) (simp add: rankCounts_000_def rankCounts_def)
qed

text \<open>
  C10. The five functions of the second source file return what their namesakes of
  \<open>App.jsx\<close> return, on every input and for the same values of the random source.
\<close>

theorem variants_equal:
  "createDeck_000 = createDeck \<and>
   shuffle_000 = (shuffle :: (nat \<Rightarrow> double) \<Rightarrow> nat \<Rightarrow> 'a list \<Rightarrow> 'a list) \<and>
   getRankValue_000 = getRankValue \<and>
   evaluateHand_000 = evaluateHand \<and>
   compareHands_000 = compareHands"
proof -
  have "createDeck_000 = createDeck"
    by (simp add: createDeck_000_def createDeck_def RANKS_000_def RANKS_def SUITS_000_def
        SUITS_def)
  moreover have "shuffle_000 = (shuffle :: (nat \<Rightarrow> double) \<Rightarrow> nat \<Rightarrow> 'a list \<Rightarrow> 'a list)"
    by (intro ext) (simp add: shuffle_000_def shuffle_def shuffle_loop_000_eq)
  moreover have "getRankValue_000 = getRankValue"
    by (rule getRankValue_000_eq)
  moreover have "evaluateHand_000 = evaluateHand"
    unfolding evaluateHand_000_def evaluateHand_def getRankValue_000_eq rankCounts_000_eq
    by (rule refl)
  moreover have "compareHands_000 = compareHands"
    unfolding compareHands_000_def compareHands_def kicker_loop_000_eq
    by (rule refl)
  ultimately show ?thesis by simp
qed

subsection \<open>Commands and their timers\<close>

lemma run_timers_nil: "timers w = [] \<Longrightarrow> run_timers rnd w = w"
  by (subst run_timers.simps) simp

lemma run_timers_cons:
  "timers w = (due, cb) # rest \<Longrightarrow>
   run_timers rnd w = run_timers rnd (fire rnd cb (w\<lparr>timers := rest, clock := max (clock w) due\<rparr>))"
  by (subst run_timers.simps) (simp add: step_def)

lemma handleDeal_refuse:
  "length (currentDeck w) < 6 \<Longrightarrow>
   handleDeal w =
     w\<lparr>gameState := ''showdown'',
       resultMessage := finalResultMessage (player1Score w) (player2Score w),
       showReshuffleModal := True\<rparr>"
  by (simp add: handleDeal_def cardsNeeded_def)

lemma handleDeal_start:
  "6 \<le> length (currentDeck w) \<Longrightarrow>
   handleDeal w =
     w\<lparr>gameState := ''hands-out'', winningPlayer := None, isHandsRevealed := False,
       winnerMessage := ''...Dealing cards...'', resultMessage := '''',
       player1Hand := [], player2Hand := [],
       timers := insert_timer
         (clock w + 300, DealCards (currentDeck w) (player1Score w) (player2Score w)) (timers w)\<rparr>"
  by (simp add: handleDeal_def cardsNeeded_def setTimeout_def Let_def)

lemma deal_command_unfold:
  assumes "timers w = []" and "6 \<le> length (currentDeck w)"
  shows "deal_command rnd w =
     run_timers rnd
       (fire rnd (ShowWinner (take 3 (currentDeck w)) (take 3 (drop 3 (currentDeck w)))
                    (drop 6 (currentDeck w)) (player1Score w) (player2Score w))
          (dealt w))"
proof -
  let ?d = "currentDeck w"
  let ?w1 = "handleDeal w"
  have t1: "timers ?w1 = [(clock w + 300, DealCards ?d (player1Score w) (player2Score w))]"
    by (simp add: handleDeal_start assms)
  let ?w2 = "fire rnd (DealCards ?d (player1Score w) (player2Score w))
               (?w1\<lparr>timers := [], clock := max (clock ?w1) (clock w + 300)\<rparr>)"
  have r1: "run_timers rnd ?w1 = run_timers rnd ?w2"
    by (rule run_timers_cons [OF t1])
  let ?sw = "ShowWinner (take 3 ?d) (take 3 (drop 3 ?d)) (drop 6 ?d) (player1Score w) (player2Score w)"
  have t2: "timers ?w2 = [(clock w + 350, RevealHands), (clock w + 1500, ?sw)]"
    by (simp add: fire.simps handleDeal_start assms setTimeout_def slice_def slice_from_def Let_def)
  let ?w3 = "fire rnd RevealHands (?w2\<lparr>timers := [(clock w + 1500, ?sw)], clock := max (clock ?w2) (clock w + 350)\<rparr>)"
  have r2: "run_timers rnd ?w2 = run_timers rnd ?w3"
    by (rule run_timers_cons [OF t2])
  have t3: "timers ?w3 = [(clock w + 1500, ?sw)]"
    by (simp add: fire.simps)
  let ?w4 = "fire rnd ?sw (?w3\<lparr>timers := [], clock := max (clock ?w3) (clock w + 1500)\<rparr>)"
  have r3: "run_timers rnd ?w3 = run_timers rnd ?w4"
    by (rule run_timers_cons [OF t3])
  have "?w3\<lparr>timers := [], clock := max (clock ?w3) (clock w + 1500)\<rparr> = dealt w"
    by (simp add: fire.simps dealt_def handleDeal_start assms setTimeout_def slice_def slice_from_def Let_def)
  with r1 r2 r3 show ?thesis
    by (simp only: deal_command_def)
qed

lemma fire_ShowWinner_fields:
  fixes v :: app and rnd p1 p2 rem s1 s2
  defines "v' \<equiv> fire rnd (ShowWinner p1 p2 rem s1 s2) v"
  defines "wid \<equiv> compareHands (evaluateHand p1) (evaluateHand p2)"
  shows "currentDeck v' = currentDeck v"
    and "player1Hand v' = player1Hand v"
    and "player2Hand v' = player2Hand v"
    and "gameState v' = ''showdown''"
    and "winningPlayer v' = Some wid"
    and "player1Score v' = player1Score v + (if wid = 1 then 1 else 0)"
    and "player2Score v' = player2Score v + (if wid = 2 then 1 else 0)"
    and "showReshuffleModal v' = showReshuffleModal v"
    and "resultMessage v' = resultMessage v"
    and "shuffleCount v' = shuffleCount v"
    and "clock v' = clock v"
    and "timers v' =
           (if length rem < 6
            then insert_timer
                   (clock v + 1500,
                    ShowModal (finalResultMessage (s1 + (if wid = 1 then 1 else 0))
                                                  (s2 + (if wid = 2 then 1 else 0))))
                   (timers v)
            else timers v)"
  unfolding v'_def wid_def
  by (simp_all add: fire.simps Let_def setTimeout_def cardsNeeded_def)

lemma dealt_fields:
  "currentDeck (dealt w) = drop 6 (currentDeck w)"
  "player1Hand (dealt w) = take 3 (currentDeck w)"
  "player2Hand (dealt w) = take 3 (drop 3 (currentDeck w))"
  "player1Score (dealt w) = player1Score w"
  "player2Score (dealt w) = player2Score w"
  "shuffleCount (dealt w) = shuffleCount w"
  "showReshuffleModal (dealt w) = showReshuffleModal w"
  "timers (dealt w) = []"
  "clock (dealt w) = clock w + 1500"
  by (simp_all add: dealt_def)

lemma deal_command_final:
  assumes "timers w = []" and "6 \<le> length (currentDeck w)"
  shows "deal_command rnd w =
     (let v' = fire rnd (ShowWinner (take 3 (currentDeck w)) (take 3 (drop 3 (currentDeck w)))
                    (drop 6 (currentDeck w)) (player1Score w) (player2Score w)) (dealt w)
      in if length (currentDeck w) < 12
         then v'\<lparr>resultMessage :=
                    finalResultMessage
                      (player1Score w + (if round_winner w = 1 then 1 else 0))
                      (player2Score w + (if round_winner w = 2 then 1 else 0)),
                 showReshuffleModal := True, timers := [], clock := clock w + 3000\<rparr>
         else v')"
proof -
  let ?sw = "ShowWinner (take 3 (currentDeck w)) (take 3 (drop 3 (currentDeck w)))
                    (drop 6 (currentDeck w)) (player1Score w) (player2Score w)"
  let ?v = "fire rnd ?sw (dealt w)"
  let ?msg = "finalResultMessage
                      (player1Score w + (if round_winner w = 1 then 1 else 0))
                      (player2Score w + (if round_winner w = 2 then 1 else 0))"
  have unfold: "deal_command rnd w = run_timers rnd ?v"
    by (rule deal_command_unfold [OF assms])
  show ?thesis
  proof (cases "length (currentDeck w) < 12")
    case True
    with assms(2) have low: "length (currentDeck w) - 6 < 6" by linarith
    have t: "timers ?v = [(clock w + 3000, ShowModal ?msg)]"
      by (simp add: fire_ShowWinner_fields dealt_fields low round_winner_def)
    have "run_timers rnd ?v =
        run_timers rnd (fire rnd (ShowModal ?msg) (?v\<lparr>timers := [], clock := max (clock ?v) (clock w + 3000)\<rparr>))"
      by (rule run_timers_cons [OF t])
    also have "\<dots> = fire rnd (ShowModal ?msg) (?v\<lparr>timers := [], clock := max (clock ?v) (clock w + 3000)\<rparr>)"
      by (rule run_timers_nil) (simp add: fire.simps(4))
    also have "\<dots> = ?v\<lparr>resultMessage := ?msg, showReshuffleModal := True, timers := [],
                         clock := clock w + 3000\<rparr>"
      by (simp add: fire.simps(4) fire_ShowWinner_fields dealt_fields)
    finally show ?thesis using True unfold by (simp add: Let_def)
  next
    case False
    then have "\<not> length (currentDeck w) - 6 < 6" by linarith
    then have "timers ?v = []"
      by (simp add: fire_ShowWinner_fields dealt_fields)
    then have "run_timers rnd ?v = ?v" by (rule run_timers_nil)
    with False unfold show ?thesis by (simp add: Let_def)
  qed
qed

lemma deal_command_refused:
  assumes "timers w = []" and "length (currentDeck w) < 6"
  shows "deal_command rnd w = handleDeal w"
  unfolding deal_command_def
  by (rule run_timers_nil) (simp add: handleDeal_refuse assms)

lemma deal_command_fields:
  assumes "timers w = []" and "6 \<le> length (currentDeck w)"
  shows "currentDeck (deal_command rnd w) = drop 6 (currentDeck w)"
    and "player1Hand (deal_command rnd w) = take 3 (currentDeck w)"
    and "player2Hand (deal_command rnd w) = take 3 (drop 3 (currentDeck w))"
    and "timers (deal_command rnd w) = []"
    and "gameState (deal_command rnd w) = ''showdown''"
    and "winningPlayer (deal_command rnd w) = Some (round_winner w)"
    and "player1Score (deal_command rnd w) =
           player1Score w + (if round_winner w = 1 then 1 else 0)"
    and "player2Score (deal_command rnd w) =
           player2Score w + (if round_winner w = 2 then 1 else 0)"
    and "shuffleCount (deal_command rnd w) = shuffleCount w"
  using assms(2)
  by (auto simp add: deal_command_final [OF assms] Let_def fire_ShowWinner_fields dealt_fields
      round_winner_def)

lemma deal_command_gate:
  assumes "timers w = []" and "6 \<le> length (currentDeck w)" and "length (currentDeck w) < 12"
  shows "showReshuffleModal (deal_command rnd w)"
    and "resultMessage (deal_command rnd w) =
           finalResultMessage (player1Score w + (if round_winner w = 1 then 1 else 0))
                              (player2Score w + (if round_winner w = 2 then 1 else 0))"
  using assms(3)
  by (simp_all add: deal_command_final [OF assms(1,2)] Let_def)

lemma deal_command_no_gate:
  assumes "timers w = []" and "12 \<le> length (currentDeck w)"
  shows "showReshuffleModal (deal_command rnd w) = showReshuffleModal w"
proof -
  from assms(2) have six: "6 \<le> length (currentDeck w)" by simp
  from assms(2) show ?thesis
    by (simp add: deal_command_final [OF assms(1) six] Let_def fire_ShowWinner_fields dealt_fields)
qed

lemma handleDeal_refuse_fields:
  assumes "length (currentDeck v) < 6"
  shows "showReshuffleModal (handleDeal v)"
    and "gameState (handleDeal v) = ''showdown''"
    and "resultMessage (handleDeal v) = finalResultMessage (player1Score v) (player2Score v)"
    and "currentDeck (handleDeal v) = currentDeck v"
    and "player1Hand (handleDeal v) = player1Hand v"
    and "player2Hand (handleDeal v) = player2Hand v"
    and "player1Score (handleDeal v) = player1Score v"
    and "player2Score (handleDeal v) = player2Score v"
    and "timers (handleDeal v) = timers v"
  by (simp_all add: handleDeal_refuse [OF assms])

lemma finalResultMessage_prefix:
  "a > b \<Longrightarrow> take 23 (finalResultMessage a b) = ''Player 1 Wins the Game!''"
  "b > a \<Longrightarrow> take 23 (finalResultMessage a b) = ''Player 2 Wins the Game!''"
  "a = b \<Longrightarrow> take 16 (finalResultMessage a b) = ''It'' @ [CHR 0x27] @ ''s a Tie Game!''"
  by (simp_all add: finalResultMessage_def)

lemma deals_invariant:
  assumes "timers w = []" and "length (currentDeck w) = 52"
  shows "timers ((deal_command rnd ^^ N) w) = [] \<and>
         length (currentDeck ((deal_command rnd ^^ N) w)) = 52 - 6 * min N 8"
proof (induction N)
  case 0
  show ?case using assms by simp
next
  case (Suc N)
  let ?v = "(deal_command rnd ^^ N) w"
  from Suc.IH have t: "timers ?v = []"
    and len: "length (currentDeck ?v) = 52 - 6 * min N 8" by simp_all
  show ?case
  proof (cases "N < 8")
    case True
    with len have six: "6 \<le> length (currentDeck ?v)" by simp
    from True len show ?thesis
      by (simp add: deal_command_fields [OF t six])
  next
    case False
    with len have low: "length (currentDeck ?v) < 6" by simp
    from False len show ?thesis
      by (simp add: deal_command_refused [OF t low] handleDeal_refuse_fields [OF low] t)
  qed
qed

lemma mount_initial:
  "timers (mount rnd initial) = []"
  "length (currentDeck (mount rnd initial)) = 52"
  "player1Score (mount rnd initial) = 0"
  "player2Score (mount rnd initial) = 0"
  "gameState (mount rnd initial) = ''pre-deal''"
  "shuffleCount (mount rnd initial) = 1"
  "showReshuffleModal (mount rnd initial) = False"
  by (simp_all add: mount_def initial_def Let_def shuffle_length createDeck_length)

lemma click_deal_gate:
  "showReshuffleModal w \<Longrightarrow> click_deal w = w"
  by (simp add: click_deal_def)

lemma reshuffle_command_final:
  assumes "timers w = []"
  shows "reshuffle_command rnd w =
     w\<lparr>gameState := ''pre-deal'', showReshuffleModal := False,
       winnerMessage := ''Shuffle complete. Ready to draw.'', resultMessage := '''',
       player1Score := 0, player2Score := 0, player1Hand := [], player2Hand := [],
       winningPlayer := None, isHandsRevealed := False,
       currentDeck := shuffle rnd (random_calls w) createDeck,
       shuffleCount := shuffleCount w + 1,
       random_calls := random_calls w + 51,
       timers := [], clock := clock w + 500\<rparr>"
proof -
  let ?w1 = "handleReshuffle w"
  have t: "timers ?w1 = [(clock w + 500, FinishReshuffle)]"
    by (simp add: handleReshuffle_def setTimeout_def assms)
  let ?w2 = "fire rnd FinishReshuffle (?w1\<lparr>timers := [], clock := max (clock ?w1) (clock w + 500)\<rparr>)"
  have "run_timers rnd ?w1 = run_timers rnd ?w2"
    by (rule run_timers_cons [OF t])
  also have "\<dots> = ?w2"
    by (rule run_timers_nil) (simp add: fire.simps(5) Let_def)
  also have "\<dots> =
     w\<lparr>gameState := ''pre-deal'', showReshuffleModal := False,
       winnerMessage := ''Shuffle complete. Ready to draw.'', resultMessage := '''',
       player1Score := 0, player2Score := 0, player1Hand := [], player2Hand := [],
       winningPlayer := None, isHandsRevealed := False,
       currentDeck := shuffle rnd (random_calls w) createDeck,
       shuffleCount := shuffleCount w + 1,
       random_calls := random_calls w + 51,
       timers := [], clock := clock w + 500\<rparr>"
    by (simp add: fire.simps(5) Let_def handleReshuffle_def setTimeout_def createDeck_length)
  finally show ?thesis by (simp only: reshuffle_command_def)
qed

lemma fixed_random_ok: "random_ok fixed_random"
  by (simp add: random_ok_def fixed_random_def is_double_def below_one_def)

lemma shuffle_fixed_random: "shuffle fixed_random 0 createDeck = createDeck"
  by code_simp

lemma step_handleDeal:
  assumes "timers w = []" and "6 \<le> length (currentDeck w)"
  shows "step rnd (handleDeal w) =
     w\<lparr>gameState := ''hands-out'', winningPlayer := None, isHandsRevealed := False,
       winnerMessage := ''...Dealing cards...'', resultMessage := '''',
       player1Hand := take 3 (currentDeck w),
       player2Hand := take 3 (drop 3 (currentDeck w)),
       currentDeck := drop 6 (currentDeck w),
       timers := [(clock w + 350, RevealHands),
                  (clock w + 1500,
                   ShowWinner (take 3 (currentDeck w)) (take 3 (drop 3 (currentDeck w)))
                     (drop 6 (currentDeck w)) (player1Score w) (player2Score w))],
       clock := clock w + 300\<rparr>"
  by (simp add: step_def handleDeal_start assms fire.simps(1) setTimeout_def slice_def
      slice_from_def Let_def)

subsection \<open>The exhaustion gate\<close>

text \<open>
  C3. When the deck cannot supply six cards, no deal takes place and the exhaustion
  signal is raised. A deal command that finds fewer than six cards sets the modal flag
  and the message of the finished game, computed from the two scores, and leaves hands,
  deck, scores and timers as they are. A deal that leaves fewer than six cards ends
  with the modal flag set and the message computed from the scores that include the
  point of this round; after it the deal button is gone and \<open>handleDeal\<close> changes
  neither hands nor deck. The message names player 1 when the first score is higher,
  player 2 when the second is higher, and a tie when they are equal.
\<close>

theorem exhaustion_gate:
  assumes "timers w = []"
  shows "(\<forall>v. length (currentDeck v) < 6 \<longrightarrow>
            showReshuffleModal (handleDeal v) \<and>
            gameState (handleDeal v) = ''showdown'' \<and>
            resultMessage (handleDeal v) = finalResultMessage (player1Score v) (player2Score v) \<and>
            currentDeck (handleDeal v) = currentDeck v \<and>
            player1Hand (handleDeal v) = player1Hand v \<and>
            player2Hand (handleDeal v) = player2Hand v \<and>
            player1Score (handleDeal v) = player1Score v \<and>
            player2Score (handleDeal v) = player2Score v \<and>
            timers (handleDeal v) = timers v) \<and>
         (6 \<le> length (currentDeck w) \<and> length (currentDeck w) < 12 \<longrightarrow>
            (let w' = deal_command rnd w
             in showReshuffleModal w' \<and>
                gameState w' = ''showdown'' \<and>
                player1Score w' = player1Score w + (if round_winner w = 1 then 1 else 0) \<and>
                player2Score w' = player2Score w + (if round_winner w = 2 then 1 else 0) \<and>
                resultMessage w' = finalResultMessage (player1Score w') (player2Score w') \<and>
                timers w' = [] \<and>
                click_deal w' = w' \<and>
                currentDeck (handleDeal w') = currentDeck w' \<and>
                player1Hand (handleDeal w') = player1Hand w' \<and>
                player2Hand (handleDeal w') = player2Hand w')) \<and>
         (\<forall>a b. (a > b \<longrightarrow> take 23 (finalResultMessage a b) = ''Player 1 Wins the Game!'') \<and>
                (b > a \<longrightarrow> take 23 (finalResultMessage a b) = ''Player 2 Wins the Game!'') \<and>
                (a = b \<longrightarrow>
                   take 16 (finalResultMessage a b) = ''It'' @ [CHR 0x27] @ ''s a Tie Game!''))"
proof (intro conjI allI impI)
  fix v :: app
  assume low: "length (currentDeck v) < 6"
  show "showReshuffleModal (handleDeal v)"
    and "gameState (handleDeal v) = ''showdown''"
    and "resultMessage (handleDeal v) = finalResultMessage (player1Score v) (player2Score v)"
    and "currentDeck (handleDeal v) = currentDeck v"
    and "player1Hand (handleDeal v) = player1Hand v"
    and "player2Hand (handleDeal v) = player2Hand v"
    and "player1Score (handleDeal v) = player1Score v"
    and "player2Score (handleDeal v) = player2Score v"
    and "timers (handleDeal v) = timers v"
    by (rule handleDeal_refuse_fields [OF low])+
next
  assume range: "6 \<le> length (currentDeck w) \<and> length (currentDeck w) < 12"
  then have six: "6 \<le> length (currentDeck w)" and twelve: "length (currentDeck w) < 12"
    by simp_all
  let ?w' = "deal_command rnd w"
  note f = deal_command_fields [OF assms six, where rnd = rnd]
  note g = deal_command_gate [OF assms six twelve, where rnd = rnd]
  have low: "length (currentDeck ?w') < 6" using six twelve by (simp add: f)
  show "let w' = deal_command rnd w
        in showReshuffleModal w' \<and>
           gameState w' = ''showdown'' \<and>
           player1Score w' = player1Score w + (if round_winner w = 1 then 1 else 0) \<and>
           player2Score w' = player2Score w + (if round_winner w = 2 then 1 else 0) \<and>
           resultMessage w' = finalResultMessage (player1Score w') (player2Score w') \<and>
           timers w' = [] \<and>
           click_deal w' = w' \<and>
           currentDeck (handleDeal w') = currentDeck w' \<and>
           player1Hand (handleDeal w') = player1Hand w' \<and>
           player2Hand (handleDeal w') = player2Hand w'"
    unfolding Let_def
    using g(1) f(5) f(7) f(8) g(2) f(4) click_deal_gate [OF g(1)]
      handleDeal_refuse_fields(4-6) [OF low]
    by simp
next
  fix a b :: int
  show "a > b \<Longrightarrow> take 23 (finalResultMessage a b) = ''Player 1 Wins the Game!''"
    by (rule finalResultMessage_prefix)
  show "b > a \<Longrightarrow> take 23 (finalResultMessage a b) = ''Player 2 Wins the Game!''"
    by (rule finalResultMessage_prefix)
  show "a = b \<Longrightarrow> take 16 (finalResultMessage a b) = ''It'' @ [CHR 0x27] @ ''s a Tie Game!''"
    by (rule finalResultMessage_prefix)
qed

theorem exhaustion_gate_witness:
  "showReshuffleModal (handleDeal initial) \<and>
   resultMessage (handleDeal initial) =
     ''It'' @ [CHR 0x27] @ ''s a Tie Game! Final Score: 0 - 0'' \<and>
   showReshuffleModal
     (deal_command fixed_random ((deal_command fixed_random ^^ 7) (mount fixed_random initial))) \<and>
   click_deal
     (deal_command fixed_random ((deal_command fixed_random ^^ 7) (mount fixed_random initial))) =
     deal_command fixed_random ((deal_command fixed_random ^^ 7) (mount fixed_random initial)) \<and>
   take 23 (finalResultMessage 5 3) = ''Player 1 Wins the Game!''"
proof -
  let ?w0 = "mount fixed_random initial"
  let ?w7 = "(deal_command fixed_random ^^ 7) ?w0"
  have inv: "timers ?w7 = [] \<and> length (currentDeck ?w7) = 52 - 6 * min 7 8"
    by (rule deals_invariant) (simp_all add: mount_initial)
  then have t: "timers ?w7 = []" and len: "length (currentDeck ?w7) = 10" by simp_all
  note inst = exhaustion_gate [OF t, where rnd = fixed_random]
  have low: "length (currentDeck initial) < 6" by (simp add: initial_def)
  from inst [THEN conjunct1, rule_format, OF low]
  have 1: "showReshuffleModal (handleDeal initial)"
    and 2: "resultMessage (handleDeal initial) =
      finalResultMessage (player1Score initial) (player2Score initial)"
    by simp_all
  have 3: "finalResultMessage (player1Score initial) (player2Score initial) =
      ''It'' @ [CHR 0x27] @ ''s a Tie Game! Final Score: 0 - 0''"
    by code_simp
  have range: "6 \<le> length (currentDeck ?w7) \<and> length (currentDeck ?w7) < 12"
    by (simp add: len)
  from inst [THEN conjunct2, THEN conjunct1, rule_format, OF range]
  have 4: "showReshuffleModal (deal_command fixed_random ?w7)"
    and 5: "click_deal (deal_command fixed_random ?w7) = deal_command fixed_random ?w7"
    by (simp_all add: Let_def)
  from inst [THEN conjunct2, THEN conjunct2]
  have "(5 :: int) > 3 \<longrightarrow> take 23 (finalResultMessage 5 3) = ''Player 1 Wins the Game!''"
    by blast
  then have 6: "take 23 (finalResultMessage 5 3) = ''Player 1 Wins the Game!''"
    by simp
  from 1 2 3 4 5 6 show ?thesis by simp
qed

subsection \<open>Dealing\<close>

text \<open>
  C4. A deal from a deck of at least six cards gives player 1 the first three cards and
  player 2 the next three, leaves the deck from index 6 on, and so makes it six cards
  shorter. From a deck of 52 cards, \<open>N\<close> deals leave \<open>52 - 6N\<close> cards as long as
  \<open>N\<close> is at most 8; from then on 4 cards are left and every further deal is refused:
  it changes neither the deck nor the hands.
\<close>

theorem deal_consumes_six:
  assumes "timers w = []"
  shows "(6 \<le> length (currentDeck w) \<longrightarrow>
            player1Hand (deal_command rnd w) = take 3 (currentDeck w) \<and>
            player2Hand (deal_command rnd w) = take 3 (drop 3 (currentDeck w)) \<and>
            currentDeck (deal_command rnd w) = drop 6 (currentDeck w) \<and>
            int (length (currentDeck (deal_command rnd w))) = int (length (currentDeck w)) - 6) \<and>
         (length (currentDeck w) = 52 \<longrightarrow>
            (\<forall>N. N \<le> 8 \<longrightarrow>
               int (length (currentDeck ((deal_command rnd ^^ N) w))) = 52 - 6 * int N) \<and>
            (\<forall>N. 8 \<le> N \<longrightarrow>
               currentDeck ((deal_command rnd ^^ Suc N) w) = currentDeck ((deal_command rnd ^^ N) w) \<and>
               player1Hand ((deal_command rnd ^^ Suc N) w) = player1Hand ((deal_command rnd ^^ N) w) \<and>
               player2Hand ((deal_command rnd ^^ Suc N) w) = player2Hand ((deal_command rnd ^^ N) w)))"
proof (intro conjI allI impI)
  assume six: "6 \<le> length (currentDeck w)"
  note f = deal_command_fields [OF assms six, where rnd = rnd]
  show "player1Hand (deal_command rnd w) = take 3 (currentDeck w)" by (rule f)
  show "player2Hand (deal_command rnd w) = take 3 (drop 3 (currentDeck w))" by (rule f)
  show "currentDeck (deal_command rnd w) = drop 6 (currentDeck w)" by (rule f)
  show "int (length (currentDeck (deal_command rnd w))) = int (length (currentDeck w)) - 6"
    using six by (simp add: f)
next
  fix N :: nat
  assume full: "length (currentDeck w) = 52" and "N \<le> 8"
  then show "int (length (currentDeck ((deal_command rnd ^^ N) w))) = 52 - 6 * int N"
    using deals_invariant [OF assms full, where rnd = rnd and N = N] by simp
next
  fix N :: nat
  assume full: "length (currentDeck w) = 52" and N: "8 \<le> N"
  let ?v = "(deal_command rnd ^^ N) w"
  from deals_invariant [OF assms full, where rnd = rnd and N = N] N
  have t: "timers ?v = []" and low: "length (currentDeck ?v) < 6" by simp_all
  have step: "(deal_command rnd ^^ Suc N) w = handleDeal ?v"
    by (simp add: deal_command_refused [OF t low])
  show "currentDeck ((deal_command rnd ^^ Suc N) w) = currentDeck ?v"
    and "player1Hand ((deal_command rnd ^^ Suc N) w) = player1Hand ?v"
    and "player2Hand ((deal_command rnd ^^ Suc N) w) = player2Hand ?v"
    unfolding step by (rule handleDeal_refuse_fields [OF low])+
qed

theorem deal_consumes_six_witness:
  "player1Hand (deal_command fixed_random (mount fixed_random initial)) =
     take 3 (currentDeck (mount fixed_random initial)) \<and>
   int (length (currentDeck (deal_command fixed_random (mount fixed_random initial)))) = 46 \<and>
   int (length (currentDeck ((deal_command fixed_random ^^ 8) (mount fixed_random initial)))) = 4 \<and>
   currentDeck ((deal_command fixed_random ^^ Suc 8) (mount fixed_random initial)) =
     currentDeck ((deal_command fixed_random ^^ 8) (mount fixed_random initial))"
proof -
  let ?w = "mount fixed_random initial"
  have t: "timers ?w = []" and full: "length (currentDeck ?w) = 52"
    by (simp_all add: mount_initial)
  note inst = deal_consumes_six [OF t, where rnd = fixed_random]
  from full have six: "6 \<le> length (currentDeck ?w)" by simp
  from inst [THEN conjunct1, rule_format, OF six] full
  have 1: "player1Hand (deal_command fixed_random ?w) = take 3 (currentDeck ?w)"
    and 2: "int (length (currentDeck (deal_command fixed_random ?w))) = 46"
    by simp_all
  from inst [THEN conjunct2, rule_format, OF full, THEN conjunct1, rule_format, of 8]
  have 3: "int (length (currentDeck ((deal_command fixed_random ^^ 8) ?w))) = 4"
    by simp
  from inst [THEN conjunct2, rule_format, OF full, THEN conjunct2, rule_format, of 8]
  have 4: "currentDeck ((deal_command fixed_random ^^ Suc 8) ?w) =
     currentDeck ((deal_command fixed_random ^^ 8) ?w)"
    by simp
  from 1 2 3 4 show ?thesis by simp
qed

subsection \<open>A game played to the end of the deck\<close>

lemma round_winner_winner_of: "round_winner w = winner_of (currentDeck w)"
  by (simp add: round_winner_def winner_of_def)

lemma deals_scores:
  assumes "timers w = []" and "6 * N \<le> length (currentDeck w)"
  shows "timers ((deal_command rnd ^^ N) w) = [] \<and>
         currentDeck ((deal_command rnd ^^ N) w) = drop (6 * N) (currentDeck w) \<and>
         player1Score ((deal_command rnd ^^ N) w) = player1Score w + points 1 (currentDeck w) N \<and>
         player2Score ((deal_command rnd ^^ N) w) = player2Score w + points 2 (currentDeck w) N \<and>
         shuffleCount ((deal_command rnd ^^ N) w) = shuffleCount w"
  using assms
proof (induction N arbitrary: w)
  case 0
  then show ?case by simp
next
  case (Suc N)
  let ?v = "deal_command rnd w"
  from Suc.prems(2) have six: "6 \<le> length (currentDeck w)" by simp
  note f = deal_command_fields [OF Suc.prems(1) six, where rnd = rnd]
  have t: "timers ?v = []" by (rule f)
  have len: "6 * N \<le> length (currentDeck ?v)"
    using Suc.prems(2) by (simp add: f)
  have swap: "(deal_command rnd ^^ Suc N) w = (deal_command rnd ^^ N) ?v"
    by (simp add: funpow_swap1)
  have dr: "drop (6 * N) (drop 6 (currentDeck w)) = drop (6 * Suc N) (currentDeck w)"
    by (simp add: add.commute)
  show ?case
    unfolding swap
    using Suc.IH [OF t len] dr
    by (simp add: f round_winner_winner_of)
qed

lemma mount_fixed_random: "currentDeck (mount fixed_random initial) = createDeck"
  by (simp add: mount_def initial_def Let_def shuffle_fixed_random)

lemma points_createDeck: "points 1 createDeck 8 = 3 \<and> points 2 createDeck 8 = 5"
  by code_simp

lemma end_of_deck_step:
  "end_of_deck = deal_command fixed_random ((deal_command fixed_random ^^ 7) (mount fixed_random initial))"
proof -
  have "(8::nat) = Suc 7" by simp
  then have "(deal_command fixed_random ^^ 8) (mount fixed_random initial) =
      (deal_command fixed_random ^^ Suc 7) (mount fixed_random initial)"
    by (rule arg_cong)
  then show ?thesis by (simp only: end_of_deck_def funpow.simps o_apply)
qed

lemma end_of_deck_fields:
  "timers end_of_deck = []"
  "player1Score end_of_deck = 3"
  "player2Score end_of_deck = 5"
  "length (currentDeck end_of_deck) = 4"
  "shuffleCount end_of_deck = 1"
  "length (player1Hand end_of_deck) = 3"
  "length (player2Hand end_of_deck) = 3"
  "showReshuffleModal end_of_deck"
  "gameState end_of_deck = ''showdown''"
  "winningPlayer end_of_deck \<noteq> None"
proof -
  let ?w0 = "mount fixed_random initial"
  have t0: "timers ?w0 = []" by (rule mount_initial)
  have l8: "6 * 8 \<le> length (currentDeck ?w0)" by (simp add: mount_initial)
  note s = deals_scores [OF t0 l8, where rnd = fixed_random, folded end_of_deck_def]
  show "timers end_of_deck = []" using s by simp
  show "player1Score end_of_deck = 3" "player2Score end_of_deck = 5"
    using s points_createDeck by (simp_all add: mount_initial mount_fixed_random)
  show "length (currentDeck end_of_deck) = 4" using s by (simp add: mount_initial)
  show "shuffleCount end_of_deck = 1" using s by (simp add: mount_initial)
  let ?w7 = "(deal_command fixed_random ^^ 7) ?w0"
  have l7: "6 * 7 \<le> length (currentDeck ?w0)" by (simp add: mount_initial)
  note s7 = deals_scores [OF t0 l7, where rnd = fixed_random]
  have t7: "timers ?w7 = []" using s7 by simp
  have len7: "length (currentDeck ?w7) = 10" using s7 by (simp add: mount_initial)
  then have six: "6 \<le> length (currentDeck ?w7)" and twelve: "length (currentDeck ?w7) < 12"
    by simp_all
  note f = deal_command_fields [OF t7 six, where rnd = fixed_random, folded end_of_deck_step]
  note g = deal_command_gate [OF t7 six twelve, where rnd = fixed_random, folded end_of_deck_step]
  show "length (player1Hand end_of_deck) = 3" "length (player2Hand end_of_deck) = 3"
    by (simp_all add: f len7)
  show "showReshuffleModal end_of_deck" by (rule g)
  show "gameState end_of_deck = ''showdown''" by (rule f)
  show "winningPlayer end_of_deck \<noteq> None" by (simp add: f)
qed

subsection \<open>Reshuffling\<close>

text \<open>
  C5. When a reshuffle command has completed, the deck holds the 52 cards of a fresh
  deck, the shuffle count is one higher, both scores are 0, both hands are empty, the
  winner indicator and the modal flag are cleared, and the state is \<open>pre-deal\<close>.
\<close>

theorem reshuffle_resets:
  assumes "timers w = []" and "random_ok rnd"
  shows "mset (currentDeck (reshuffle_command rnd w)) = mset createDeck \<and>
         length (currentDeck (reshuffle_command rnd w)) = 52 \<and>
         shuffleCount (reshuffle_command rnd w) = shuffleCount w + 1 \<and>
         player1Score (reshuffle_command rnd w) = 0 \<and>
         player2Score (reshuffle_command rnd w) = 0 \<and>
         player1Hand (reshuffle_command rnd w) = [] \<and>
         player2Hand (reshuffle_command rnd w) = [] \<and>
         winningPlayer (reshuffle_command rnd w) = None \<and>
         showReshuffleModal (reshuffle_command rnd w) = False \<and>
         gameState (reshuffle_command rnd w) = ''pre-deal'' \<and>
         timers (reshuffle_command rnd w) = []"
proof -
  have "length createDeck < 2 ^ 32" by (simp add: createDeck_length)
  then have "mset (shuffle rnd (random_calls w) createDeck) = mset createDeck"
    by (rule shuffle_mset [OF assms(2)])
  then show ?thesis
    unfolding reshuffle_command_final [OF assms(1)]
    by (simp add: shuffle_length createDeck_length)
qed

theorem reshuffle_resets_witness:
  "player1Score end_of_deck = 3 \<and>
   player2Score end_of_deck = 5 \<and>
   length (player1Hand end_of_deck) = 3 \<and>
   length (player2Hand end_of_deck) = 3 \<and>
   length (currentDeck end_of_deck) = 4 \<and>
   winningPlayer end_of_deck \<noteq> None \<and>
   showReshuffleModal end_of_deck \<and>
   gameState end_of_deck = ''showdown'' \<and>
   shuffleCount end_of_deck = 1 \<and>
   click_reshuffle end_of_deck = handleReshuffle end_of_deck \<and>
   mset (currentDeck (reshuffle_command fixed_random end_of_deck)) = mset createDeck \<and>
   length (currentDeck (reshuffle_command fixed_random end_of_deck)) = 52 \<and>
   shuffleCount (reshuffle_command fixed_random end_of_deck) = 2 \<and>
   player1Score (reshuffle_command fixed_random end_of_deck) = 0 \<and>
   player2Score (reshuffle_command fixed_random end_of_deck) = 0 \<and>
   player1Hand (reshuffle_command fixed_random end_of_deck) = [] \<and>
   player2Hand (reshuffle_command fixed_random end_of_deck) = [] \<and>
   winningPlayer (reshuffle_command fixed_random end_of_deck) = None \<and>
   showReshuffleModal (reshuffle_command fixed_random end_of_deck) = False \<and>
   gameState (reshuffle_command fixed_random end_of_deck) = ''pre-deal''"
proof -
  have before: "player1Score end_of_deck = 3 \<and>
     player2Score end_of_deck = 5 \<and>
     length (player1Hand end_of_deck) = 3 \<and>
     length (player2Hand end_of_deck) = 3 \<and>
     length (currentDeck end_of_deck) = 4 \<and>
     winningPlayer end_of_deck \<noteq> None \<and>
     showReshuffleModal end_of_deck \<and>
     gameState end_of_deck = ''showdown'' \<and>
     shuffleCount end_of_deck = 1"
    by (simp add: end_of_deck_fields)
  have button: "click_reshuffle end_of_deck = handleReshuffle end_of_deck"
    by (simp add: click_reshuffle_def end_of_deck_fields)
  from reshuffle_resets [OF end_of_deck_fields(1) fixed_random_ok] before button
  show ?thesis by (simp add: end_of_deck_fields)
qed

subsection \<open>Deal commands while a deal or a reshuffle is under way\<close>

text \<open>
  C6, as the claim states it, fails: \<open>handleDeal\<close> does not look at the game state.
  Called in the state \<open>hands-out\<close>, after the cards of the first deal were handed
  out, it empties the hands and sets a timer for another deal.
\<close>

theorem handleDeal_reentrant_counterexample:
  "gameState (step fixed_random (handleDeal (mount fixed_random initial))) = ''hands-out'' \<and>
   length (player1Hand (step fixed_random (handleDeal (mount fixed_random initial)))) = 3 \<and>
   player1Hand (handleDeal (step fixed_random (handleDeal (mount fixed_random initial)))) = [] \<and>
   length (timers (handleDeal (step fixed_random (handleDeal (mount fixed_random initial))))) =
     length (timers (step fixed_random (handleDeal (mount fixed_random initial)))) + 1"
proof -
  let ?w0 = "mount fixed_random initial"
  have six: "6 \<le> length (currentDeck ?w0)" by (simp add: mount_initial)
  note s = step_handleDeal [OF mount_initial(1) six, where rnd = fixed_random]
  have len: "6 \<le> length (currentDeck (step fixed_random (handleDeal ?w0)))"
    by (simp add: s mount_initial)
  have ins: "length (insert_timer u us) = Suc (length us)" for u us
    by (induction us) simp_all
  show ?thesis
    unfolding handleDeal_start [OF len]
    by (simp add: s mount_initial ins)
qed

text \<open>
  C6, amended. In the states \<open>hands-out\<close> and \<open>reshuffling\<close> the deal button is
  disabled, so a deal command given through it changes nothing.
\<close>

theorem deal_button_guard:
  assumes "gameState w = ''hands-out'' \<or> gameState w = ''reshuffling''"
  shows "click_deal w = w"
  using assms by (auto simp add: click_deal_def deal_button_disabled_def)

theorem deal_button_guard_witness:
  "click_deal (step fixed_random (handleDeal (mount fixed_random initial))) =
   step fixed_random (handleDeal (mount fixed_random initial))"
proof -
  let ?w0 = "mount fixed_random initial"
  have six: "6 \<le> length (currentDeck ?w0)" by (simp add: mount_initial)
  have "gameState (step fixed_random (handleDeal ?w0)) = ''hands-out''"
    by (simp add: step_handleDeal [OF mount_initial(1) six])
  then show ?thesis by (simp add: deal_button_guard)
qed

subsection \<open>Drawing from a short deck\<close>

text \<open>
  C7, as the claim states it, fails: the draw is the three slices in the callback at
  300 ms, and a slice does not fail. On a deck of four cards the callback hands out
  three cards and one card and leaves an empty deck.
\<close>

theorem draw_truncates_counterexample:
  "player1Hand (fire fixed_random (DealCards (take 4 createDeck) 0 0) initial) = take 3 createDeck \<and>
   length (player2Hand (fire fixed_random (DealCards (take 4 createDeck) 0 0) initial)) = 1 \<and>
   currentDeck (fire fixed_random (DealCards (take 4 createDeck) 0 0) initial) = []"
  by (simp add: fire.simps(1) setTimeout_def slice_def slice_from_def Let_def createDeck_length
      take_take min_def)

text \<open>
  C7, amended. \<open>handleDeal\<close> sets the timer of the draw only when the deck holds at
  least six cards, and then with that deck; with fewer cards it sets no timer. On a deck
  of at least six cards the draw hands out three cards and three cards and keeps the
  rest: nothing is cut short.
\<close>

theorem draw_is_gated:
  "(length (currentDeck w) < 6 \<longrightarrow> timers (handleDeal w) = timers w) \<and>
   (6 \<le> length (currentDeck w) \<longrightarrow>
      timers (handleDeal w) =
        insert_timer
          (clock w + 300, DealCards (currentDeck w) (player1Score w) (player2Score w))
          (timers w)) \<and>
   (6 \<le> length deck \<longrightarrow>
      length (player1Hand (fire rnd (DealCards deck s1 s2) u)) = 3 \<and>
      length (player2Hand (fire rnd (DealCards deck s1 s2) u)) = 3 \<and>
      player1Hand (fire rnd (DealCards deck s1 s2) u) @
      player2Hand (fire rnd (DealCards deck s1 s2) u) @
      currentDeck (fire rnd (DealCards deck s1 s2) u) = deck)"
proof (intro conjI impI)
  assume "length (currentDeck w) < 6"
  then show "timers (handleDeal w) = timers w"
    by (rule handleDeal_refuse_fields)
next
  assume "6 \<le> length (currentDeck w)"
  then show "timers (handleDeal w) =
        insert_timer
          (clock w + 300, DealCards (currentDeck w) (player1Score w) (player2Score w))
          (timers w)"
    by (simp add: handleDeal_start)
next
  assume six: "6 \<le> length deck"
  have hands: "player1Hand (fire rnd (DealCards deck s1 s2) u) = take 3 deck"
    "player2Hand (fire rnd (DealCards deck s1 s2) u) = take 3 (drop 3 deck)"
    "currentDeck (fire rnd (DealCards deck s1 s2) u) = drop 6 deck"
    by (simp_all add: fire.simps(1) setTimeout_def slice_def slice_from_def Let_def)
  show "length (player1Hand (fire rnd (DealCards deck s1 s2) u)) = 3"
    using six by (simp add: hands)
  show "length (player2Hand (fire rnd (DealCards deck s1 s2) u)) = 3"
    using six by (simp add: hands)
  have a: "take 3 (drop 3 deck) @ drop 3 (drop 3 deck) = drop 3 deck"
    by (rule append_take_drop_id)
  have b: "drop 3 (drop 3 deck) = drop 6 deck" by simp
  have c: "take 3 deck @ drop 3 deck = deck"
    by (rule append_take_drop_id)
  have "take 3 deck @ take 3 (drop 3 deck) @ drop 6 deck = deck"
    by (simp only: b [symmetric] a c)
  then show "player1Hand (fire rnd (DealCards deck s1 s2) u) @
      player2Hand (fire rnd (DealCards deck s1 s2) u) @
      currentDeck (fire rnd (DealCards deck s1 s2) u) = deck"
    by (simp add: hands)
qed

theorem draw_is_gated_witness:
  "timers (handleDeal initial) = [] \<and>
   timers (handleDeal (mount fixed_random initial)) =
     [(300, DealCards (currentDeck (mount fixed_random initial)) 0 0)] \<and>
   player1Hand (fire fixed_random (DealCards createDeck 0 0) initial) @
   player2Hand (fire fixed_random (DealCards createDeck 0 0) initial) @
   currentDeck (fire fixed_random (DealCards createDeck 0 0) initial) = createDeck"
proof -
  have "length (currentDeck initial) < 6" by (simp add: initial_def)
  with draw_is_gated [of initial] have 1: "timers (handleDeal initial) = []"
    by (simp add: initial_def)
  have "6 \<le> length (currentDeck (mount fixed_random initial))" by (simp add: mount_initial)
  with draw_is_gated [of "mount fixed_random initial"]
  have 2: "timers (handleDeal (mount fixed_random initial)) =
     [(300, DealCards (currentDeck (mount fixed_random initial)) 0 0)]"
    by (simp add: mount_initial) (simp add: mount_def initial_def Let_def)
  have "6 \<le> length createDeck" by (simp add: createDeck_length)
  with draw_is_gated [of _ createDeck fixed_random 0 0 initial]
  have 3: "player1Hand (fire fixed_random (DealCards createDeck 0 0) initial) @
   player2Hand (fire fixed_random (DealCards createDeck 0 0) initial) @
   currentDeck (fire fixed_random (DealCards createDeck 0 0) initial) = createDeck"
    by blast
  from 1 2 3 show ?thesis by simp
qed

end
